theory Spec2Isabelle
  imports Complex_Main "HOL-Library.Word" "HOL-Library.Sublist"
begin

section \<open>JavaScript strings\<close>

text \<open>
  A JavaScript string is a sequence of 16-bit code units. Literals of the source that are
  plain ASCII are written through \<open>js\<close>; the box-drawing characters and the two icons of
  the tree view are given by their code units.
\<close>

type_synonym cu = "16 word"
type_synonym jsstring = "cu list"

definition js :: "string \<Rightarrow> jsstring" where
  "js s = map of_char s"

text \<open>
  The character class \<open>\s\<close> of a regular expression without the \<open>u\<close> flag: the
  WhiteSpace and LineTerminator code points of ECMAScript, all of them in the basic plane.
\<close>

definition isSpace :: "cu \<Rightarrow> bool" where
  "isSpace c \<longleftrightarrow>
     c \<in> set [0x09, 0x0A, 0x0B, 0x0C, 0x0D, 0x20, 0xA0, 0x1680, 0x2028, 0x2029,
              0x202F, 0x205F, 0x3000, 0xFEFF]
     \<or> (0x2000 \<le> c \<and> c \<le> 0x200A)"

text \<open>
  \<open>String.prototype.split\<close> with the separator \<open>/\s+/\<close>. The separator never matches
  the empty string, so the empty input gives one empty token; a match at a whitespace code
  unit is greedy and takes the whole run; the text before the first run and after the last
  one is a token even when it is empty.
\<close>

function split_whitespace :: "jsstring \<Rightarrow> jsstring list" where
  "split_whitespace [] = [[]]"
| "split_whitespace (c # cs) =
     (if isSpace c then [] # split_whitespace (dropWhile isSpace cs)
      else (case split_whitespace cs of
              [] \<Rightarrow> [[c]]
            | t # ts \<Rightarrow> (c # t) # ts))"
  by pat_completeness auto
termination
  by (relation "measure length") (auto simp: length_dropWhile_le less_Suc_eq_le)

text \<open>\<open>Array.prototype.join\<close> with an explicit separator.\<close>

fun join :: "jsstring list \<Rightarrow> jsstring \<Rightarrow> jsstring" where
  "join [] sep = []"
| "join [t] sep = t"
| "join (t # ts) sep = t @ sep @ join ts sep"

text \<open>
  \<open>Array.prototype.slice(0, end)\<close> for an integral \<open>end\<close>: a negative end counts from
  the end of the array, and the result is clamped to the array.
\<close>

definition slice0 :: "'a list \<Rightarrow> int \<Rightarrow> 'a list" where
  "slice0 xs e =
     (let len = int (length xs);
          final = (if e < 0 then max (len + e) 0 else min e len)
      in take (nat final) xs)"

section \<open>Configuration\<close>

text \<open>
  The private fields the constructor fills from \<open>Config\<close>. The numeric options are
  JavaScript numbers; they are modelled as integers, which is what the defaults and the
  documented examples are.
\<close>

record Config =
  directory :: jsstring
  relevantExtensions :: "jsstring list"
  maxFileSize :: int
  maxTokens :: int
  ignorePatterns :: "jsstring list"
  ignoreFilesWithNoExtension :: bool
  memoryLimitMB :: int

section \<open>truncateContext\<close>

text \<open>The warning written to the console on truncation is not part of the result.\<close>

definition truncateContext :: "Config \<Rightarrow> jsstring \<Rightarrow> jsstring" where
  "truncateContext cfg context =
     (let tokens = split_whitespace context
      in if int (length tokens) > maxTokens cfg
         then join (slice0 tokens (maxTokens cfg)) (js '' '')
         else context)"

section \<open>Paths (node:path, POSIX flavour)\<close>

definition slash :: cu where "slash = 0x2F"
definition dot :: cu where "dot = 0x2E"

text \<open>The text of a path between its slashes, empty pieces included.\<close>

fun split_on :: "cu \<Rightarrow> jsstring \<Rightarrow> jsstring list" where
  "split_on sep [] = [[]]"
| "split_on sep (c # cs) =
     (if c = sep then [] # split_on sep cs
      else (case split_on sep cs of
              [] \<Rightarrow> [[c]]
            | t # ts \<Rightarrow> (c # t) # ts))"

definition segments :: "jsstring \<Rightarrow> jsstring list" where
  "segments p = filter (\<lambda>seg. seg \<noteq> []) (split_on slash p)"

definition isAbsolute :: "jsstring \<Rightarrow> bool" where
  "isAbsolute p \<longleftrightarrow> (case p of [] \<Rightarrow> False | c # _ \<Rightarrow> c = slash)"

text \<open>
  \<open>normalizeString\<close>: a \<open>.\<close> piece is dropped; a \<open>..\<close> piece removes the piece before
  it unless there is none or it is itself \<open>..\<close>, in which case it is kept only when the
  path may climb above its start. The accumulator holds the pieces kept so far, last first.
\<close>

fun normalizeString :: "bool \<Rightarrow> jsstring list \<Rightarrow> jsstring list \<Rightarrow> jsstring list" where
  "normalizeString allowAboveRoot acc [] = rev acc"
| "normalizeString allowAboveRoot acc (seg # segs) =
     (if seg = [dot] then normalizeString allowAboveRoot acc segs
      else if seg = [dot, dot] then
        (case acc of
           [] \<Rightarrow> normalizeString allowAboveRoot (if allowAboveRoot then [seg] else []) segs
         | lastSeg # below \<Rightarrow>
             if lastSeg = [dot, dot]
             then normalizeString allowAboveRoot (if allowAboveRoot then seg # acc else acc) segs
             else normalizeString allowAboveRoot below segs)
      else normalizeString allowAboveRoot (seg # acc) segs)"

definition normalize :: "jsstring \<Rightarrow> jsstring" where
  "normalize p =
     (if p = [] then [dot]
      else
        let isAbs = isAbsolute p;
            trailingSeparator = (last p = slash);
            segs = normalizeString (\<not> isAbs) [] (segments p)
        in if segs = [] then
             (if isAbs then [slash] else if trailingSeparator then [dot, slash] else [dot])
           else (if isAbs then [slash] else []) @ join segs [slash]
                @ (if trailingSeparator then [slash] else []))"

text \<open>\<open>path.join\<close> with two arguments, as \<open>gatherFiles\<close> calls it.\<close>

definition path_join :: "jsstring \<Rightarrow> jsstring \<Rightarrow> jsstring" where
  "path_join a b =
     (let joined = (if a = [] then b else if b = [] then a else a @ [slash] @ b)
      in if joined = [] then [dot] else normalize joined)"

text \<open>
  \<open>path.resolve\<close> with one argument, as the list of the pieces of the absolute path: a
  relative argument is taken from the working directory of the process.
\<close>

definition resolve_segments :: "jsstring \<Rightarrow> jsstring \<Rightarrow> jsstring list" where
  "resolve_segments cwd p =
     normalizeString False []
       ((if isAbsolute p then [] else segments cwd) @ segments p)"

definition path_resolve :: "jsstring \<Rightarrow> jsstring \<Rightarrow> jsstring" where
  "path_resolve cwd p = slash # join (resolve_segments cwd p) [slash]"

fun strip_common :: "jsstring list \<Rightarrow> jsstring list \<Rightarrow> jsstring list \<times> jsstring list" where
  "strip_common (x # xs) (y # ys) =
     (if x = y then strip_common xs ys else (x # xs, y # ys))"
| "strip_common xs ys = (xs, ys)"

text \<open>
  \<open>path.relative(from, to)\<close>: both paths are resolved, their common leading pieces are
  dropped, and every piece left of \<open>from\<close> becomes one \<open>..\<close>.
\<close>

definition path_relative :: "jsstring \<Rightarrow> jsstring \<Rightarrow> jsstring \<Rightarrow> jsstring" where
  "path_relative cwd from to =
     (let (fromRest, toRest) = strip_common (resolve_segments cwd from) (resolve_segments cwd to)
      in join (replicate (length fromRest) [dot, dot] @ toRest) [slash])"

text \<open>\<open>path.basename\<close>: the last piece of the path, trailing slashes ignored.\<close>

definition path_basename :: "jsstring \<Rightarrow> jsstring" where
  "path_basename p = (case rev (segments p) of [] \<Rightarrow> [] | b # _ \<Rightarrow> b)"

text \<open>
  \<open>path.extname\<close>: the text from the last dot of the base name to its end; empty when
  there is no dot, when the last dot is the first character of the base name, and when
  the base name is \<open>..\<close>. A base name that ends with its last dot has the extension \<open>.\<close>.
\<close>

fun lastIndexOf :: "cu \<Rightarrow> jsstring \<Rightarrow> nat option" where
  "lastIndexOf x [] = None"
| "lastIndexOf x (c # cs) =
     (case lastIndexOf x cs of
        Some i \<Rightarrow> Some (Suc i)
      | None \<Rightarrow> if c = x then Some 0 else None)"

definition path_extname :: "jsstring \<Rightarrow> jsstring" where
  "path_extname p =
     (let b = path_basename p
      in case lastIndexOf dot b of
           None \<Rightarrow> []
         | Some startDot \<Rightarrow>
             if startDot = 0 \<or> b = [dot, dot] then [] else drop startDot b)"

section \<open>The host: regular expressions, files, heap and tokenizer\<close>

text \<open>
  What the analyzer takes from its runtime. \<open>RegExp\<close> is the constructor of regular
  expressions: a compiled expression is given by its \<open>test\<close> method, and \<open>None\<close> is the
  SyntaxError of a pattern that does not compile. \<open>readFile\<close> gives the text of a file or
  fails. \<open>heapUsed k\<close> is the value, in bytes, that the \<open>k\<close>-th reading of
  \<open>process.memoryUsage().heapUsed\<close> returns. \<open>encode\<close> is the length of the token
  sequence of the external tokenizer, which can refuse a text.

  \<open>floorLog size\<close> is the value of \<open>Math.floor(Math.log(size) / Math.log(1024))\<close> as the
  runtime computes it in double precision, which is not always the floor of the exact
  logarithm.

  The last two fields are the scheduler. When one callback of a directory is rejected,
  \<open>Promise.all\<close> rejects at once and \<open>gatherFiles\<close> returns while the other callbacks of
  that directory may still be running; what they add to \<open>totalSize\<close> is added later.
  \<open>unfinished k\<close> is the number of bytes that are still to be added at the moment the
  \<open>k\<close>-th such directory is given up, and \<open>arrived k\<close> the number of outstanding bytes
  that have been added since, when the counters are looked at on occasion \<open>k\<close>. Both are
  cut to what is possible.
\<close>

record Host =
  cwd :: jsstring
  RegExp :: "jsstring \<Rightarrow> (jsstring \<Rightarrow> bool) option"
  readFile :: "jsstring \<Rightarrow> jsstring option"
  heapUsed :: "nat \<Rightarrow> nat"
  encode :: "jsstring \<Rightarrow> nat option"
  floorLog :: "nat \<Rightarrow> nat"
  unfinished :: "nat \<Rightarrow> int"
  arrived :: "nat \<Rightarrow> int"

datatype error =
    DirectoryEmpty
  | SyntaxError
  | StatFailed
  | NoRelevantFiles
  | MemoryLimitExceeded
  | TokenizerError

section \<open>PathFilter\<close>

fun compile_patterns ::
  "(jsstring \<Rightarrow> (jsstring \<Rightarrow> bool) option) \<Rightarrow> jsstring list \<Rightarrow> (jsstring \<Rightarrow> bool) list option" where
  "compile_patterns new_RegExp [] = Some []"
| "compile_patterns new_RegExp (pattern # rest) =
     (case new_RegExp pattern of
        None \<Rightarrow> None
      | Some r \<Rightarrow>
          (case compile_patterns new_RegExp rest of
             None \<Rightarrow> None
           | Some rs \<Rightarrow> Some (r # rs)))"

text \<open>
  The patterns are compiled before the result is computed, so a pattern that does not
  compile makes \<open>shouldIgnore\<close> fail whatever the path is.
\<close>

definition shouldIgnore :: "Host \<Rightarrow> Config \<Rightarrow> jsstring \<Rightarrow> error + bool" where
  "shouldIgnore host cfg filePath =
     (let relativePath = path_relative (cwd host) (directory cfg) filePath
      in case compile_patterns (RegExp host) (ignorePatterns cfg) of
           None \<Rightarrow> Inl SyntaxError
         | Some patterns \<Rightarrow>
             Inr (prefix [dot] relativePath
                  \<or> list_ex (\<lambda>pattern. pattern relativePath \<or> pattern (path_basename filePath))
                       patterns))"

definition hasExtension :: "jsstring \<Rightarrow> bool" where
  "hasExtension filePath \<longleftrightarrow> path_extname filePath \<noteq> []"

section \<open>formatSize\<close>

text \<open>
  \<open>formatSize\<close> on integral byte counts below \<open>2 ^ 53\<close>, which are exact doubles. The
  index is the one the runtime computes (\<open>floorLog\<close>). The quotient
  \<open>size / 1024 ** index\<close> is a division by a power of two and is exact; it is the positive
  rational \<open>num / den\<close> below.

  \<open>decimalExponent\<close> is the decimal exponent \<open>e\<close> of the quotient:
  \<open>10 ^ e \<le> num / den < 10 ^ (e + 1)\<close>. \<open>toPrecision3\<close> gives the number
  \<open>Number((num / den).toPrecision(3))\<close> as a pair \<open>(n, e)\<close> that stands for
  \<open>n * 10 ^ (e - 2)\<close> with \<open>100 \<le> n \<le> 999\<close>: the quotient rounded to three significant
  decimal digits, a tie going to the larger value.
\<close>

function expUp :: "nat \<Rightarrow> nat \<Rightarrow> nat" where
  "expUp num den = (if den = 0 \<or> num < 10 * den then 0 else Suc (expUp num (10 * den)))"
  by pat_completeness auto
termination
  by (relation "measure (\<lambda>(num, den). num - den)") auto

function expDown :: "nat \<Rightarrow> nat \<Rightarrow> nat" where
  "expDown num den = (if num = 0 \<or> den \<le> num then 0 else Suc (expDown (10 * num) den))"
  by pat_completeness auto
termination
  by (relation "measure (\<lambda>(num, den). den - num)") auto

definition decimalExponent :: "nat \<Rightarrow> nat \<Rightarrow> int" where
  "decimalExponent num den =
     (if den \<le> num then int (expUp num den) else - int (expDown num den))"

definition roundedSignificand :: "nat \<Rightarrow> nat \<Rightarrow> int \<Rightarrow> nat" where
  "roundedSignificand num den e =
     (if e \<le> 2 then (2 * (num * 10 ^ nat (2 - e)) + den) div (2 * den)
      else (2 * num + den * 10 ^ nat (e - 2)) div (2 * (den * 10 ^ nat (e - 2))))"

definition toPrecision3 :: "nat \<Rightarrow> nat \<Rightarrow> nat \<times> int" where
  "toPrecision3 num den =
     (let e = decimalExponent num den;
          n = roundedSignificand num den e
      in if n = 1000 then (100, e + 1) else (n, e))"

definition digit :: "nat \<Rightarrow> cu" where
  "digit d = of_nat (48 + d)"

fun show_nat :: "nat \<Rightarrow> jsstring" where
  "show_nat n = (if n < 10 then [digit n] else show_nat (n div 10) @ [digit (n mod 10)])"

text \<open>
  The conversion of the number \<open>n * 10 ^ (e - 2)\<close> to a string: its digits without
  trailing zeros, \<open>k\<close> of them, written as a whole number, with a decimal point, with
  leading zeros after \<open>0.\<close>, or with an exponent, depending on where the decimal point
  falls.
\<close>

definition significantDigits :: "nat \<Rightarrow> nat" where
  "significantDigits n =
     (if n mod 100 = 0 then n div 100 else if n mod 10 = 0 then n div 10 else n)"

definition exponentText :: "int \<Rightarrow> jsstring" where
  "exponentText x = js ''e'' @ (if x < 0 then js ''-'' else js ''+'') @ show_nat (nat \<bar>x\<bar>)"

definition numberText :: "nat \<Rightarrow> int \<Rightarrow> jsstring" where
  "numberText n e =
     (let ds = show_nat (significantDigits n);
          k = int (length ds);
          pos = e + 1
      in if k \<le> pos \<and> pos \<le> 21 then ds @ replicate (nat (pos - k)) (digit 0)
         else if 0 < pos \<and> pos \<le> 21 then take (nat pos) ds @ js ''.'' @ drop (nat pos) ds
         else if - 6 < pos \<and> pos \<le> 0
           then js ''0.'' @ replicate (nat (- pos)) (digit 0) @ ds
         else (if k = 1 then ds else take 1 ds @ js ''.'' @ drop 1 ds)
              @ exponentText (pos - 1))"

definition units :: "jsstring list" where
  "units = [js ''bytes'', js ''KB'', js ''MB'', js ''GB'', js ''TB'']"

text \<open>
  \<open>1024 ** index\<close> is infinite from \<open>index = 103\<close> on; the quotient is then zero, which
  is written \<open>0\<close> whatever its sign. An index past the table of units gives \<open>undefined\<close>.
\<close>

definition unitText :: "nat \<Rightarrow> jsstring" where
  "unitText index = (if index < length units then units ! index else js ''undefined'')"

definition formatSize :: "Host \<Rightarrow> int \<Rightarrow> jsstring" where
  "formatSize host bytes =
     (if bytes = 0 then js ''0 bytes''
      else
        let absSize = nat \<bar>bytes\<bar>;
            index = floorLog host absSize;
            formattedSize = toPrecision3 absSize (1024 ^ index)
        in (if 102 < index then js ''0''
            else (if bytes < 0 then js ''-'' else [])
                 @ numberText (fst formattedSize) (snd formattedSize))
           @ js '' '' @ unitText index)"

section \<open>The file tree\<close>

text \<open>
  \<open>FileNode\<close> has a field that holds nodes again, so it is a datatype with the fields
  of the source as selectors (\<open>size\<close> is \<open>nodeSize\<close>).
\<close>

datatype FileNode =
  FileNode (name: jsstring) (path: jsstring) (nodeSize: int) (isDirectory: bool)
           (children: "FileNode list")

text \<open>
  What \<open>fs.stat\<close> and \<open>fs.readdir\<close> answer below the root, as a finite tree: a regular
  file with its size; a directory with its size and its entries in the order \<open>readdir\<close>
  lists them; a directory whose listing fails; an entry that is neither a file nor a
  directory; an entry whose \<open>stat\<close> fails (a dangling link).
\<close>

datatype fsnode =
    RegularFile nat
  | Dir nat "(jsstring \<times> fsnode) list"
  | UnreadableDir nat
  | Special nat
  | Dangling

text \<open>
  The counters of the instance. The last three are not fields of the source. \<open>probes\<close>
  counts the readings of the heap taken so far, so that the next call of the memory guard
  gets the next reading. \<open>inFlight\<close> is the number of bytes that callbacks still running
  will add to \<open>totalSize\<close>, and \<open>occasions\<close> counts the questions put to the scheduler.
\<close>

record Counters =
  processedFiles :: nat
  totalFiles :: nat
  totalSize :: int
  probes :: nat
  inFlight :: int
  occasions :: nat

definition initial :: Counters where
  "initial = \<lparr>processedFiles = 0, totalFiles = 0, totalSize = 0, probes = 0,
              inFlight = 0, occasions = 0\<rparr>"

definition clampBytes :: "int \<Rightarrow> int \<Rightarrow> int" where
  "clampBytes most wanted = max 0 (min most wanted)"

text \<open>
  A directory is given up after its callbacks would have taken the counters from \<open>st\<close> to
  \<open>st'\<close>: a part of what they add is not added yet.
\<close>

definition giveUp :: "Host \<Rightarrow> Counters \<Rightarrow> Counters \<Rightarrow> Counters" where
  "giveUp host st st' =
     (let late = clampBytes (totalSize st' - totalSize st) (unfinished host (occasions st'))
      in st'\<lparr>totalSize := totalSize st' - late,
             inFlight := inFlight st' + late,
             occasions := Suc (occasions st')\<rparr>)"

text \<open>Time passes: a part of the outstanding bytes is added.\<close>

definition arrive :: "Host \<Rightarrow> Counters \<Rightarrow> Counters" where
  "arrive host st =
     (let came = clampBytes (inFlight st) (arrived host (occasions st))
      in st\<lparr>totalSize := totalSize st + came,
            inFlight := inFlight st - came,
            occasions := Suc (occasions st)\<rparr>)"

definition isRelevantFile :: "Config \<Rightarrow> jsstring \<Rightarrow> fsnode \<Rightarrow> bool" where
  "isRelevantFile cfg filePath stats =
     (if ignoreFilesWithNoExtension cfg \<and> \<not> hasExtension filePath then False
      else (case stats of
              RegularFile sz \<Rightarrow>
                int sz \<le> maxFileSize cfg
                \<and> list_ex (\<lambda>ext. suffix ext filePath) (relevantExtensions cfg)
            | _ \<Rightarrow> False))"

section \<open>TreeCrawler\<close>

text \<open>
  The callbacks of one directory are followed one after the other, each to its end, in
  the order of the listing. When none of them is rejected, \<open>gatherFiles\<close> has waited for
  all of them, and the order in which they ran does not show in the result. When one of
  them is rejected, \<open>Promise.all\<close> rejects, the \<open>catch\<close> of \<open>gatherFiles\<close> takes the
  rejection and the directory yields no node; the other callbacks go on, and the part of
  their additions to \<open>totalSize\<close> that the scheduler has not let happen yet is moved to
  \<open>inFlight\<close> (\<open>giveUp\<close>).
\<close>

datatype 'a settled = Fulfilled 'a | Rejected error

fun collect :: "FileNode option settled list \<Rightarrow> FileNode list option" where
  "collect [] = Some []"
| "collect (Rejected e # rest) = None"
| "collect (Fulfilled file # rest) =
     (case collect rest of
        None \<Rightarrow> None
      | Some files \<Rightarrow> Some (case file of None \<Rightarrow> files | Some node \<Rightarrow> node # files))"

fun gatherFiles ::
      "Host \<Rightarrow> Config \<Rightarrow> jsstring \<Rightarrow> fsnode \<Rightarrow> Counters \<Rightarrow> FileNode list \<times> Counters"
  and gatherItems ::
      "Host \<Rightarrow> Config \<Rightarrow> jsstring \<Rightarrow> (jsstring \<times> fsnode) list \<Rightarrow> Counters
       \<Rightarrow> FileNode option settled list \<times> Counters"
  and gatherItem ::
      "Host \<Rightarrow> Config \<Rightarrow> jsstring \<Rightarrow> jsstring \<Rightarrow> fsnode \<Rightarrow> Counters
       \<Rightarrow> FileNode option settled \<times> Counters"
where
  "gatherFiles host cfg dir (Dir sz items) st =
     (let (resolvedFiles, st') = gatherItems host cfg dir items st
      in case collect resolvedFiles of
           None \<Rightarrow> ([], giveUp host st st')
         | Some files \<Rightarrow> (files, st'))"
| "gatherFiles host cfg dir (RegularFile sz) st = ([], st)"
| "gatherFiles host cfg dir (UnreadableDir sz) st = ([], st)"
| "gatherFiles host cfg dir (Special sz) st = ([], st)"
| "gatherFiles host cfg dir Dangling st = ([], st)"
| "gatherItems host cfg dir [] st = ([], st)"
| "gatherItems host cfg dir ((item, entry) # rest) st =
     (let (file, st') = gatherItem host cfg dir item entry st;
          (files, st'') = gatherItems host cfg dir rest st'
      in (file # files, st''))"
| "gatherItem host cfg dir item entry st =
     (let fullPath = path_join dir item
      in case shouldIgnore host cfg fullPath of
           Inl e \<Rightarrow> (Rejected e, st)
         | Inr True \<Rightarrow> (Fulfilled None, st)
         | Inr False \<Rightarrow>
             (case entry of
                Dangling \<Rightarrow> (Rejected StatFailed, st)
              | Dir sz items \<Rightarrow>
                  (let (kids, st') = gatherFiles host cfg fullPath entry st
                   in if length kids > 0
                      then (Fulfilled (Some (FileNode item fullPath (int sz) True kids)), st')
                      else (Fulfilled None, st'))
              | UnreadableDir sz \<Rightarrow>
                  (let (kids, st') = gatherFiles host cfg fullPath entry st
                   in if length kids > 0
                      then (Fulfilled (Some (FileNode item fullPath (int sz) True kids)), st')
                      else (Fulfilled None, st'))
              | RegularFile sz \<Rightarrow>
                  if isRelevantFile cfg fullPath entry
                  then (Fulfilled (Some (FileNode item fullPath (int sz) False [])),
                        st\<lparr>totalSize := totalSize st + int sz\<rparr>)
                  else (Fulfilled None, st)
              | Special sz \<Rightarrow>
                  if isRelevantFile cfg fullPath entry
                  then (Fulfilled (Some (FileNode item fullPath (int sz) False [])),
                        st\<lparr>totalSize := totalSize st + int sz\<rparr>)
                  else (Fulfilled None, st)))"

section \<open>TreeRenderer\<close>

definition connector :: "bool \<Rightarrow> jsstring" where
  "connector isLastItem = (if isLastItem then [0x2514, 0x2500, 0x2500] else [0x251C, 0x2500, 0x2500])"

definition marker :: "bool \<Rightarrow> jsstring" where
  "marker isDir = (if isDir then [0xD83D, 0xDCC1] else [0x2630])"

definition childIndent :: "jsstring \<Rightarrow> bool \<Rightarrow> jsstring" where
  "childIndent indent isLastItem =
     indent @ (if isLastItem then js ''    '' else 0x2502 # js ''   '')"

text \<open>The line of one node, with its line feed.\<close>

definition treeLine :: "Host \<Rightarrow> jsstring \<Rightarrow> bool \<Rightarrow> FileNode \<Rightarrow> jsstring" where
  "treeLine host indent isLastItem node =
     (let sizeText =
            (if isDirectory node then [] else js '' '' @ formatSize host (nodeSize node))
      in indent @ connector isLastItem @ js '' '' @ marker (isDirectory node) @ js '' ''
         @ name node @ sizeText @ [0x0A])"

text \<open>
  \<open>buildTreeView\<close> and its loop over \<open>nodes.entries()\<close>: \<open>len\<close> is \<open>nodes.length\<close>,
  \<open>index\<close> the index of the first node not yet rendered.
\<close>

fun buildTreeView :: "Host \<Rightarrow> FileNode list \<Rightarrow> jsstring \<Rightarrow> jsstring"
  and buildTreeView_from :: "Host \<Rightarrow> nat \<Rightarrow> nat \<Rightarrow> FileNode list \<Rightarrow> jsstring \<Rightarrow> jsstring"
where
  "buildTreeView host nodes indent = buildTreeView_from host (length nodes) 0 nodes indent"
| "buildTreeView_from host len index [] indent = []"
| "buildTreeView_from host len index (FileNode nm pth sz isDir kids # rest) indent =
     (let isLastItem = (int index = int len - 1)
      in treeLine host indent isLastItem (FileNode nm pth sz isDir kids)
         @ (if isDir then buildTreeView host kids (childIndent indent isLastItem) else [])
         @ buildTreeView_from host len (Suc index) rest indent)"

section \<open>ContextAssembler and memory guard\<close>

fun countTotalFiles :: "FileNode list \<Rightarrow> nat" where
  "countTotalFiles [] = 0"
| "countTotalFiles (FileNode nm pth sz isDir kids # rest) =
     (if isDir then countTotalFiles kids else 1) + countTotalFiles rest"

definition checkMemoryUsage :: "Host \<Rightarrow> Config \<Rightarrow> Counters \<Rightarrow> error + Counters" where
  "checkMemoryUsage host cfg st =
     (let usedMemoryMB = (rat_of_nat (heapUsed host (probes st)) / 1024 / 1024)
      in if usedMemoryMB > rat_of_int (memoryLimitMB cfg)
         then Inl MemoryLimitExceeded
         else Inr (st\<lparr>probes := Suc (probes st)\<rparr>))"

text \<open>\<open>String.prototype.trim\<close> removes white space and line terminators at both ends.\<close>

definition trim :: "jsstring \<Rightarrow> jsstring" where
  "trim s = rev (dropWhile isSpace (rev (dropWhile isSpace s)))"

definition fileBlock :: "Host \<Rightarrow> FileNode \<Rightarrow> jsstring \<Rightarrow> jsstring" where
  "fileBlock host node content =
     js ''File: '' @ path node @ js '' ('' @ formatSize host (nodeSize node) @ js '')''
     @ [0x0A, 0x0A] @ trim content @ [0x0A, 0x0A] @ replicate 20 0x3D @ [0x0A]"

fun processFileTree ::
  "Host \<Rightarrow> Config \<Rightarrow> FileNode list \<Rightarrow> jsstring list \<times> Counters
   \<Rightarrow> error + jsstring list \<times> Counters" where
  "processFileTree host cfg [] (context, st) = Inr (context, st)"
| "processFileTree host cfg (FileNode nm pth sz isDir kids # rest) (context, st) =
     (case (if isDir then processFileTree host cfg kids (context, st)
            else (case readFile host pth of
                    Some content \<Rightarrow>
                      Inr (context @ [fileBlock host (FileNode nm pth sz isDir kids) content],
                           st\<lparr>processedFiles := Suc (processedFiles st)\<rparr>)
                  | None \<Rightarrow> Inr (context, st))) of
        Inl e \<Rightarrow> Inl e
      | Inr (context', st') \<Rightarrow>
          (case checkMemoryUsage host cfg st' of
             Inl e \<Rightarrow> Inl e
           | Inr st'' \<Rightarrow> processFileTree host cfg rest (context', st'')))"

definition gatherContext ::
  "Host \<Rightarrow> Config \<Rightarrow> FileNode list \<Rightarrow> Counters \<Rightarrow> error + jsstring \<times> Counters" where
  "gatherContext host cfg fileTree st =
     (case processFileTree host cfg fileTree ([], st\<lparr>totalFiles := countTotalFiles fileTree\<rparr>) of
        Inl e \<Rightarrow> Inl e
      | Inr (context, st') \<Rightarrow>
          if length context = 0 then Inl NoRelevantFiles
          else Inr (join context [0x0A], st'))"

section \<open>Analyzer\<close>

record FileStats =
  statTotalSize :: int
  statTotalCount :: nat
  statProcessedCount :: nat

record Output =
  outContext :: jsstring
  tokenCount :: nat
  treeView :: jsstring
  files :: FileStats

text \<open>
  \<open>analyze\<close> on an instance with the counters \<open>st\<close>; \<open>rootEntry\<close> is what the file system
  holds at \<open>this.directory\<close>. The \<open>catch\<close> of \<open>analyze\<close> logs the error and throws it again.
  By the time the record is built, some of the bytes still outstanding after \<open>gatherFiles\<close>
  may have been added (\<open>arrive\<close>).
\<close>

definition analyze :: "Host \<Rightarrow> Config \<Rightarrow> fsnode \<Rightarrow> Counters \<Rightarrow> error + Output \<times> Counters" where
  "analyze host cfg rootEntry st =
     (let (fileNode, st1) = gatherFiles host cfg (directory cfg) rootEntry st
      in case gatherContext host cfg fileNode st1 of
           Inl e \<Rightarrow> Inl e
         | Inr (context, st2) \<Rightarrow>
             (let truncatedContext = truncateContext cfg context
              in case encode host truncatedContext of
                   None \<Rightarrow> Inl TokenizerError
                 | Some n \<Rightarrow>
                     (let st3 = arrive host st2
                      in Inr (\<lparr>outContext = truncatedContext,
                               tokenCount = n,
                               treeView = buildTreeView host fileNode [],
                               files = \<lparr>statTotalSize = totalSize st3,
                                        statTotalCount = totalFiles st3,
                                        statProcessedCount = processedFiles st3\<rparr>\<rparr>,
                              st3))))"

text \<open>
  The constructor, on a configuration whose missing options have been filled with
  \<open>defaults\<close>: a directory that is empty after trimming is refused, any other is resolved
  against the working directory.
\<close>

definition defaults :: Config where
  "defaults =
     \<lparr>directory = js ''.'',
      relevantExtensions =
        [js ''.js'', js ''.ts'', js ''.jsx'', js ''.tsx'', js ''.json'', js ''.java'',
         js ''.kt'', js ''.swift'', js ''.c'', js ''.cpp'', js ''.h'', js ''.go'', js ''.py'',
         js ''.rb'', js ''.php'', js ''.html'', js ''.css'', js ''.scss'', js ''.less''],
      maxFileSize = 100000,
      maxTokens = 100000,
      ignorePatterns =
        [js ''node_modules'', js ''vendor'', js ''dist'', js ''build'', js ''public'',
         js ''android'', js ''fastlane'', js ''ios'', js ''tmp'', js ''package.lock.json''],
      ignoreFilesWithNoExtension = True,
      memoryLimitMB = 64\<rparr>"

definition construct :: "Host \<Rightarrow> Config \<Rightarrow> error + Config" where
  "construct host config =
     (if trim (directory config) = [] then Inl DirectoryEmpty
      else Inr (config\<lparr>directory := path_resolve (cwd host) (directory config)\<rparr>))"

section \<open>A sample configuration and a sample host\<close>

text \<open>
  Concrete inputs for the evaluations below. \<open>sampleRegExp\<close> is the constructor of
  regular expressions on the pattern sources the evaluations use: text without a
  metacharacter other than the dot, which matches wherever it occurs; the same after a
  leading \<open>^\<close>, which matches at the start only; and the source \<open>(\<close>, an unterminated
  group, which does not compile. Other sources with metacharacters are not used and are
  rejected here.
\<close>

definition exampleConfig :: Config where
  "exampleConfig =
     \<lparr>directory = js ''/repo'',
      relevantExtensions = [js ''.ts'', js ''.js''],
      maxFileSize = 100000,
      maxTokens = 2,
      ignorePatterns = [js ''node_modules'', js ''dist''],
      ignoreFilesWithNoExtension = True,
      memoryLimitMB = 64\<rparr>"

definition isLineTerminator :: "cu \<Rightarrow> bool" where
  "isLineTerminator c \<longleftrightarrow> c \<in> set [0x0A, 0x0D, 0x2028, 0x2029]"

fun matchesAt :: "jsstring \<Rightarrow> jsstring \<Rightarrow> bool" where
  "matchesAt [] s = True"
| "matchesAt (p # ps) [] = False"
| "matchesAt (p # ps) (c # cs) =
     ((if p = dot then \<not> isLineTerminator c else p = c) \<and> matchesAt ps cs)"

fun matchesSomewhere :: "jsstring \<Rightarrow> jsstring \<Rightarrow> bool" where
  "matchesSomewhere ps [] = matchesAt ps []"
| "matchesSomewhere ps (c # cs) = (matchesAt ps (c # cs) \<or> matchesSomewhere ps cs)"

definition plainSource :: "jsstring \<Rightarrow> bool" where
  "plainSource src \<longleftrightarrow>
     list_all (\<lambda>c. c \<notin> set [0x5C, 0x5E, 0x24, 0x2A, 0x2B, 0x3F, 0x28, 0x29, 0x5B, 0x5D,
                              0x7B, 0x7D, 0x7C]) src"

definition sampleRegExp :: "jsstring \<Rightarrow> (jsstring \<Rightarrow> bool) option" where
  "sampleRegExp src =
     (if plainSource src then Some (matchesSomewhere src)
      else (case src of
              [] \<Rightarrow> None
            | c # rest \<Rightarrow>
                if c = 0x5E \<and> plainSource rest then Some (matchesAt rest) else None))"

text \<open>
  The index as double-precision arithmetic gives it for sizes below \<open>2 ^ 53\<close>: the floor
  of the exact logarithm (\<open>exactFloorLog\<close>), except for the three sizes just below
  \<open>1024 ^ 5\<close>, where the quotient of the logarithms rounds to 5.
\<close>

fun exactFloorLog :: "nat \<Rightarrow> nat" where
  "exactFloorLog n = (if n < 1024 then 0 else Suc (exactFloorLog (n div 1024)))"

definition doubleFloorLog :: "nat \<Rightarrow> nat" where
  "doubleFloorLog n = (if 1024 ^ 5 - 3 \<le> n \<and> n < 1024 ^ 5 then 5 else exactFloorLog n)"

text \<open>
  The sample hosts differ in whether files can be read, in the heap readings and in the
  scheduler: \<open>late\<close> is what \<open>unfinished\<close> and \<open>arrived\<close> both answer, so \<open>0\<close> is a
  scheduler under which every callback has finished when its directory is given up.
\<close>

definition sampleHost ::
  "(jsstring \<Rightarrow> jsstring option) \<Rightarrow> (nat \<Rightarrow> nat) \<Rightarrow> (nat \<Rightarrow> int) \<Rightarrow> Host" where
  "sampleHost rd heap late =
     \<lparr>cwd = js ''/work'',
      RegExp = sampleRegExp,
      readFile = rd,
      heapUsed = heap,
      encode = (\<lambda>s. Some (length s)),
      floorLog = doubleFloorLog,
      unfinished = late,
      arrived = late\<rparr>"

section \<open>Notions used to state the properties\<close>

text \<open>A token without white space.\<close>

definition ws_free :: "jsstring \<Rightarrow> bool" where
  "ws_free t \<longleftrightarrow> list_all (\<lambda>c. \<not> isSpace c) t"

text \<open>
  A pattern source matches a text on a host when it compiles there and the compiled
  expression tests true on the text.
\<close>

definition matches :: "Host \<Rightarrow> jsstring \<Rightarrow> jsstring \<Rightarrow> bool" where
  "matches host pattern s = (case RegExp host pattern of None \<Rightarrow> False | Some r \<Rightarrow> r s)"

text \<open>
  The description of \<open>hasExtension\<close> in the words of the specification: the final
  component contains a dot that is not at position 0 and that is followed by characters.
\<close>

definition described_hasExtension :: "jsstring \<Rightarrow> bool" where
  "described_hasExtension filePath \<longleftrightarrow> dot \<in> set (butlast (tl (path_basename filePath)))"

text \<open>
  The nodes of a tree in the order \<open>buildTreeView\<close> and \<open>processFileTree\<close> visit them. As in
  both functions, only a directory node has its children looked at.
\<close>

fun treeNodes :: "FileNode list \<Rightarrow> FileNode list" where
  "treeNodes [] = []"
| "treeNodes (FileNode nm pth sz isDir kids # rest) =
     FileNode nm pth sz isDir kids # (if isDir then treeNodes kids else []) @ treeNodes rest"

text \<open>No directory node, at any depth, has an empty sequence of children.\<close>

fun pruned :: "FileNode list \<Rightarrow> bool" where
  "pruned [] \<longleftrightarrow> True"
| "pruned (FileNode nm pth sz isDir kids # rest) \<longleftrightarrow>
     (if isDir then kids \<noteq> [] else True) \<and> pruned kids \<and> pruned rest"

text \<open>The test of the memory guard on one reading of the heap.\<close>

definition overLimit :: "Config \<Rightarrow> nat \<Rightarrow> bool" where
  "overLimit cfg used \<longleftrightarrow> rat_of_nat used / 1024 / 1024 > rat_of_int (memoryLimitMB cfg)"

text \<open>The number of line feeds of a text, and the line feed itself.\<close>

definition LF :: cu where "LF = 0x0A"

definition lineCount :: "jsstring \<Rightarrow> nat" where
  "lineCount s = count_list s LF"

text \<open>
  One sibling as \<open>buildTreeView\<close> renders it: its line, then the view of its children when
  it is a directory.
\<close>

definition entryView :: "Host \<Rightarrow> jsstring \<Rightarrow> bool \<Rightarrow> FileNode \<Rightarrow> jsstring" where
  "entryView host indent isLastItem node =
     treeLine host indent isLastItem node
     @ (if isDirectory node
        then buildTreeView host (children node) (childIndent indent isLastItem)
        else [])"

text \<open>
  A small file system below \<open>/repo\<close>: a source directory with one relevant file, a
  directory with nothing relevant, an empty directory, an ignored directory and a file
  without a relevant extension.
\<close>

definition exampleTree :: fsnode where
  "exampleTree =
     Dir 4096
       [(js ''src'', Dir 4096 [(js ''index.ts'', RegularFile 10)]),
        (js ''docs'', Dir 4096 [(js ''README.md'', RegularFile 5)]),
        (js ''empty'', Dir 4096 []),
        (js ''node_modules'', Dir 4096 [(js ''b.ts'', RegularFile 3)]),
        (js ''LICENSE'', RegularFile 7)]"





text \<open>What a settled callback contributes satisfies the pruning invariant.\<close>

fun settledPruned :: "FileNode option settled \<Rightarrow> bool" where
  "settledPruned (Fulfilled (Some node)) = pruned [node]"
| "settledPruned (Fulfilled None) = True"
| "settledPruned (Rejected e) = True"

text \<open>Adding a number of bytes to \<open>totalSize\<close>, all other counters unchanged.\<close>

definition addTotal :: "int \<Rightarrow> Counters \<Rightarrow> Counters" where
  "addTotal n st = st\<lparr>totalSize := totalSize st + n\<rparr>"

text \<open>
  The value that \<open>totalSize\<close> has once every callback still running has made its
  addition.
\<close>

definition eventualSize :: "Counters \<Rightarrow> int" where
  "eventualSize st = totalSize st + inFlight st"

text \<open>
  What \<open>processFileTree\<close> does with one node before it calls the memory guard: the walk of
  the children of a directory, or the reading of a file.
\<close>

definition visitNode ::
  "Host \<Rightarrow> Config \<Rightarrow> FileNode \<Rightarrow> jsstring list \<times> Counters \<Rightarrow> error + jsstring list \<times> Counters" where
  "visitNode host cfg node acc =
     (if isDirectory node then processFileTree host cfg (children node) acc
      else (case readFile host (path node) of
              Some content \<Rightarrow>
                Inr (fst acc @ [fileBlock host node content],
                     (snd acc)\<lparr>processedFiles := Suc (processedFiles (snd acc))\<rparr>)
            | None \<Rightarrow> Inr acc))"

text \<open>
  No file of the tree can be read; and the tree that \<open>analyze\<close> gets from \<open>gatherFiles\<close>.
\<close>

definition nothingRead :: "Host \<Rightarrow> FileNode list \<Rightarrow> bool" where
  "nothingRead host nodes \<longleftrightarrow>
     list_all (\<lambda>n. isDirectory n \<or> readFile host (path n) = None) (treeNodes nodes)"

definition gathered :: "Host \<Rightarrow> Config \<Rightarrow> fsnode \<Rightarrow> Counters \<Rightarrow> FileNode list" where
  "gathered host cfg rootEntry st = fst (gatherFiles host cfg (directory cfg) rootEntry st)"

text \<open>
  More concrete inputs: a tree of nodes; hosts that differ in whether files can be read and
  in what the heap readings are; a directory without a relevant file; and what a run on
  \<open>exampleTree\<close> gathers, assembles and renders.
\<close>

definition exampleNodes :: "FileNode list" where
  "exampleNodes =
     [FileNode (js ''src'') (js ''/repo/src'') 4096 True
        [FileNode (js ''index.ts'') (js ''/repo/src/index.ts'') 10 False []],
      FileNode (js ''a.ts'') (js ''/repo/a.ts'') 1024 False []]"

definition hotHost :: Host where
  "hotHost = sampleHost (\<lambda>p. None) (\<lambda>k. 104857600) (\<lambda>k. 0)"

definition calmHost :: Host where
  "calmHost = sampleHost (\<lambda>p. None) (\<lambda>k. 0) (\<lambda>k. 0)"

definition readingHost :: Host where
  "readingHost =
     sampleHost (\<lambda>p. Some (js '' x  '')) (\<lambda>k. if k = 1 then 104857600 else 0) (\<lambda>k. 0)"

definition quietHost :: Host where
  "quietHost = sampleHost (\<lambda>p. Some (js '' x  '')) (\<lambda>k. 0) (\<lambda>k. 0)"




definition docsOnlyTree :: fsnode where
  "docsOnlyTree = Dir 4096 [(js ''README.md'', RegularFile 5)]"

definition exampleGathered :: "FileNode list" where
  "exampleGathered =
     [FileNode (js ''src'') (js ''/repo/src'') 4096 True
         [FileNode (js ''index.ts'') (js ''/repo/src/index.ts'') 10 False []]]"

definition exampleBlock :: jsstring where
  "exampleBlock =
     js ''File: /repo/src/index.ts (10 bytes)'' @ [LF, LF] @ js ''x'' @ [LF, LF]
     @ js ''===================='' @ [LF]"

definition exampleView :: jsstring where
  "exampleView =
     [0x2514, 0x2500, 0x2500] @ js '' '' @ [0xD83D, 0xDCC1] @ js '' src'' @ [LF]
     @ js ''    '' @ [0x2514, 0x2500, 0x2500] @ js '' '' @ [0x2630]
     @ js '' index.ts 10 bytes'' @ [LF]"


section \<open>Properties of splitting and joining\<close>

lemma isSpace_space: "isSpace 0x20"
  by (simp add: isSpace_def)

lemma split_whitespace_not_Nil: "split_whitespace s \<noteq> []"
  by (induction s rule: split_whitespace.induct) (auto split: list.splits)

lemma split_whitespace_nonspace:
  "\<not> isSpace c \<Longrightarrow>
   split_whitespace (c # cs) = (c # hd (split_whitespace cs)) # tl (split_whitespace cs)"
  using split_whitespace_not_Nil [of cs] by (auto split: list.splits)

lemma split_whitespace_space:
  "isSpace c \<Longrightarrow> split_whitespace (c # cs) = [] # split_whitespace (dropWhile isSpace cs)"
  by simp

declare split_whitespace.simps(2) [simp del]

lemma split_whitespace_tokens_ws_free:
  "list_all ws_free (split_whitespace s)"
proof (induction s rule: split_whitespace.induct)
  case 1
  show ?case by (simp add: ws_free_def)
next
  case (2 c cs)
  show ?case
  proof (cases "isSpace c")
    case True
    with 2 show ?thesis by (simp add: ws_free_def split_whitespace_space)
  next
    case False
    have "split_whitespace cs \<noteq> []" by (rule split_whitespace_not_Nil)
    then obtain t ts where "split_whitespace cs = t # ts"
      by (cases "split_whitespace cs") auto
    with 2(2) False show ?thesis
      by (simp add: ws_free_def split_whitespace_nonspace)
  qed
qed

lemma split_whitespace_inner_nonempty:
  "list_all (\<lambda>t. t \<noteq> []) (butlast (tl (split_whitespace s)))"
proof (induction s rule: split_whitespace.induct)
  case 1
  show ?case by simp
next
  case (2 c cs)
  show ?case
  proof (cases "isSpace c")
    case True
    let ?d = "dropWhile isSpace cs"
    have ih: "list_all (\<lambda>t. t \<noteq> []) (butlast (tl (split_whitespace ?d)))"
      using 2(1) True by simp
    have "list_all (\<lambda>t. t \<noteq> []) (butlast (split_whitespace ?d))"
    proof (cases ?d)
      case Nil
      show ?thesis unfolding Nil by simp
    next
      case (Cons x xs)
      then have "\<not> isSpace x"
        by (metis hd_dropWhile list.distinct(1) list.sel(1))
      then have "split_whitespace ?d =
          (x # hd (split_whitespace xs)) # tl (split_whitespace xs)"
        unfolding Cons by (rule split_whitespace_nonspace)
      moreover have "tl (split_whitespace ?d) = tl (split_whitespace xs)"
        using calculation by simp
      ultimately show ?thesis using ih by simp
    qed
    with True show ?thesis by (simp add: split_whitespace_space)
  next
    case False
    with 2(2) show ?thesis
      by (simp add: split_whitespace_nonspace)
  qed
qed

lemma split_whitespace_token_then_space:
  "ws_free t \<Longrightarrow> isSpace c \<Longrightarrow>
   split_whitespace (t @ c # r) = t # split_whitespace (dropWhile isSpace r)"
proof (induction t)
  case Nil
  then show ?case by (simp add: split_whitespace_space)
next
  case (Cons a t)
  then have "\<not> isSpace a" and "ws_free t" by (simp_all add: ws_free_def)
  with Cons show ?case by (simp add: split_whitespace_nonspace)
qed

lemma split_whitespace_ws_free: "ws_free t \<Longrightarrow> split_whitespace t = [t]"
proof (induction t)
  case Nil
  show ?case by simp
next
  case (Cons a t)
  then have "\<not> isSpace a" and "ws_free t" by (simp_all add: ws_free_def)
  with Cons show ?case by (simp add: split_whitespace_nonspace)
qed

lemma dropWhile_join_nonempty_head:
  "t \<noteq> [] \<Longrightarrow> ws_free t \<Longrightarrow> dropWhile isSpace (join (t # ts) sep) = join (t # ts) sep"
  by (cases t; cases ts) (simp_all add: ws_free_def)

lemma split_whitespace_join:
  "list_all ws_free (t # ts) \<Longrightarrow> list_all (\<lambda>u. u \<noteq> []) ts \<Longrightarrow>
   split_whitespace (join (t # ts) (js '' '')) = t # ts"
proof (induction ts arbitrary: t)
  case Nil
  then show ?case by (simp add: split_whitespace_ws_free)
next
  case (Cons u us)
  have sp: "js '' '' = [0x20]" by (simp add: js_def)
  have "split_whitespace (join (t # u # us) (js '' ''))
        = split_whitespace (t @ 0x20 # join (u # us) (js '' ''))"
    by (simp add: sp)
  also have "\<dots> = t # split_whitespace (dropWhile isSpace (join (u # us) (js '' '')))"
    using Cons.prems by (simp add: split_whitespace_token_then_space isSpace_space)
  also have "\<dots> = t # split_whitespace (join (u # us) (js '' ''))"
    using Cons.prems by (simp add: dropWhile_join_nonempty_head)
  also have "\<dots> = t # u # us"
    using Cons.IH [of u] Cons.prems by simp
  finally show ?case .
qed

lemma take_split_whitespace_rejoin:
  assumes "0 < n" and "n < length (split_whitespace s)"
  shows "split_whitespace (join (take n (split_whitespace s)) (js '' ''))
         = take n (split_whitespace s)"
proof -
  let ?ts = "split_whitespace s"
  obtain t rest where ts: "?ts = t # rest"
    using split_whitespace_not_Nil [of s] by (cases ?ts) auto
  obtain m where n: "n = Suc m" using assms(1) by (cases n) auto
  have tk: "take n ?ts = t # take m rest" by (simp add: ts n)
  have m: "m < length rest" using assms(2) ts n by simp
  have "list_all ws_free ?ts" by (rule split_whitespace_tokens_ws_free)
  then have a: "list_all ws_free (t # take m rest)"
    unfolding ts by (auto simp: list_all_iff dest: in_set_takeD)
  have "list_all (\<lambda>u. u \<noteq> []) (butlast rest)"
    using split_whitespace_inner_nonempty [of s] by (simp add: ts)
  moreover have "set (take m rest) \<subseteq> set (butlast rest)"
    using m by (metis butlast_conv_take set_take_subset_set_take
        Suc_pred' length_greater_0_conv less_Suc_eq_le list.size(3) not_less_zero
        One_nat_def)
  ultimately have b: "list_all (\<lambda>u. u \<noteq> []) (take m rest)"
    by (auto simp: list_all_iff)
  show ?thesis unfolding tk using a b by (rule split_whitespace_join)
qed

section \<open>truncateContext: the claims\<close>

lemmas split_eval = split_whitespace.simps isSpace_def js_def

text \<open>
  Claim C10. A text within the budget comes back unchanged: when the number of tokens that
  splitting on white space gives is at most \<open>maxTokens\<close>, \<open>truncateContext\<close> returns its
  argument, white space and all.
\<close>

theorem truncateContext_within_budget:
  "int (length (split_whitespace context)) \<le> maxTokens cfg
   \<Longrightarrow> truncateContext cfg context = context"
  by (simp add: truncateContext_def Let_def)

theorem truncateContext_within_budget_witness:
  "int (length (split_whitespace (js ''a  b''))) \<le> maxTokens exampleConfig
   \<and> truncateContext exampleConfig (js ''a  b'') = js ''a  b''"
  using truncateContext_within_budget [of "js ''a  b''" exampleConfig]
  by (simp add: split_eval exampleConfig_def)

text \<open>
  Claim C1, as stated, fails when \<open>maxTokens\<close> is zero: the text \<open>a\<close> has one token, the
  slice keeps none, the result is the empty string, and the empty string splits into one
  (empty) token, not zero.
\<close>

theorem truncateContext_exact_count_counterexample:
  "int (length (split_whitespace (js ''a''))) > maxTokens (exampleConfig\<lparr>maxTokens := 0\<rparr>)
   \<and> truncateContext (exampleConfig\<lparr>maxTokens := 0\<rparr>) (js ''a'') = []
   \<and> int (length (split_whitespace
         (truncateContext (exampleConfig\<lparr>maxTokens := 0\<rparr>) (js ''a''))))
       \<noteq> maxTokens (exampleConfig\<lparr>maxTokens := 0\<rparr>)"
  by (simp add: split_eval exampleConfig_def truncateContext_def slice0_def)

text \<open>
  Claim C1, amended. For a positive \<open>maxTokens\<close> smaller than the number of tokens of the
  text, \<open>truncateContext\<close> returns the first \<open>maxTokens\<close> tokens joined by single spaces,
  splitting the result gives exactly these tokens back, and so their number is
  \<open>maxTokens\<close>.
\<close>

theorem truncateContext_over_budget:
  assumes "0 < maxTokens cfg"
    and "maxTokens cfg < int (length (split_whitespace context))"
  shows "truncateContext cfg context
           = join (take (nat (maxTokens cfg)) (split_whitespace context)) (js '' '')
         \<and> split_whitespace (truncateContext cfg context)
           = take (nat (maxTokens cfg)) (split_whitespace context)
         \<and> int (length (split_whitespace (truncateContext cfg context))) = maxTokens cfg"
proof -
  let ?n = "nat (maxTokens cfg)"
  have n: "0 < ?n" "?n < length (split_whitespace context)" using assms by simp_all
  have sl: "slice0 (split_whitespace context) (maxTokens cfg) = take ?n (split_whitespace context)"
    using assms by (simp add: slice0_def Let_def min_def)
  have eq: "truncateContext cfg context = join (take ?n (split_whitespace context)) (js '' '')"
    using assms by (simp add: truncateContext_def Let_def sl)
  have sp: "split_whitespace (truncateContext cfg context) = take ?n (split_whitespace context)"
    unfolding eq using n by (rule take_split_whitespace_rejoin)
  have "length (split_whitespace (truncateContext cfg context)) = ?n"
    unfolding sp using n by simp
  then have "int (length (split_whitespace (truncateContext cfg context))) = maxTokens cfg"
    using assms by simp
  with eq sp show ?thesis by simp
qed

theorem truncateContext_over_budget_witness:
  "0 < maxTokens exampleConfig
   \<and> maxTokens exampleConfig < int (length (split_whitespace (js '' a  b c'')))
   \<and> truncateContext exampleConfig (js '' a  b c'') = js '' a''
   \<and> split_whitespace (truncateContext exampleConfig (js '' a  b c'')) = [[], js ''a'']"
  using truncateContext_over_budget [of exampleConfig "js '' a  b c''"]
  by (simp add: split_eval exampleConfig_def)

section \<open>Paths and PathFilter: the claims\<close>

lemmas path_eval =
  path_relative_def resolve_segments_def segments_def isAbsolute_def slash_def dot_def
  path_basename_def path_extname_def path_join_def normalize_def js_def

lemmas host_eval =
  shouldIgnore_def sampleHost_def exampleConfig_def sampleRegExp_def plainSource_def
  isLineTerminator_def

lemma lastIndexOf_None: "lastIndexOf x s = None \<longleftrightarrow> x \<notin> set s"
  by (induction s) (auto split: option.splits)

lemma lastIndexOf_Some_less: "lastIndexOf x s = Some i \<Longrightarrow> i < length s"
  by (induction s arbitrary: i) (auto split: option.splits if_splits)

lemma lastIndexOf_positive:
  "(\<exists>i. lastIndexOf x s = Some i \<and> i \<noteq> 0) \<longleftrightarrow> x \<in> set (tl s)"
proof (cases s)
  case Nil
  then show ?thesis by simp
next
  case (Cons c cs)
  show ?thesis
  proof (cases "lastIndexOf x cs")
    case None
    then have "x \<notin> set cs" by (simp add: lastIndexOf_None)
    with None Cons show ?thesis by simp
  next
    case (Some j)
    then have "x \<in> set cs" using lastIndexOf_None [of x cs] by auto
    with Some Cons show ?thesis by simp
  qed
qed

lemma path_extname_nonempty:
  "path_extname p \<noteq> [] \<longleftrightarrow> dot \<in> set (tl (path_basename p)) \<and> path_basename p \<noteq> [dot, dot]"
proof (cases "lastIndexOf dot (path_basename p)")
  case None
  then have "dot \<notin> set (path_basename p)" by (simp add: lastIndexOf_None)
  then have "dot \<notin> set (tl (path_basename p))" by (cases "path_basename p") auto
  with None show ?thesis by (simp add: path_extname_def)
next
  case (Some i)
  have "i < length (path_basename p)" using Some by (rule lastIndexOf_Some_less)
  then have d: "drop i (path_basename p) \<noteq> []" by simp
  have "i \<noteq> 0 \<longleftrightarrow> dot \<in> set (tl (path_basename p))"
    using lastIndexOf_positive [of dot "path_basename p"] Some by auto
  with Some d show ?thesis by (auto simp: path_extname_def Let_def)
qed

text \<open>
  Claim C6, as stated, fails on a base name that ends with its dot: \<open>path.extname\<close> of
  \<open>a/b.\<close> is \<open>.\<close>, which is not empty, so \<open>hasExtension\<close> is true, although no
  character follows the dot.
\<close>

theorem hasExtension_trailing_dot_counterexample:
  "hasExtension (js ''a/b.'') \<and> \<not> described_hasExtension (js ''a/b.'')"
  by (simp add: path_eval hasExtension_def described_hasExtension_def)

text \<open>
  Claim C6, amended. \<open>hasExtension\<close> is true exactly when the base name of the path has a
  dot at a position other than 0 and is not \<open>..\<close>; whether characters follow the last dot
  does not matter. The three examples of the claim hold: \<open>a/b.ts\<close> has an extension,
  \<open>a/b\<close> and \<open>a/.gitignore\<close> have none.
\<close>

theorem hasExtension_iff:
  "(hasExtension filePath \<longleftrightarrow>
      dot \<in> set (tl (path_basename filePath)) \<and> path_basename filePath \<noteq> [dot, dot])
   \<and> hasExtension (js ''a/b.ts'')
   \<and> \<not> hasExtension (js ''a/b'')
   \<and> \<not> hasExtension (js ''a/.gitignore'')"
proof -
  have "hasExtension (js ''a/b.ts'') \<and> \<not> hasExtension (js ''a/b'')
        \<and> \<not> hasExtension (js ''a/.gitignore'')"
    by (simp add: path_eval hasExtension_def)
  then show ?thesis by (simp add: hasExtension_def path_extname_nonempty)
qed

theorem hasExtension_iff_witness:
  "hasExtension (js ''src/index.'')
   \<and> dot \<in> set (tl (path_basename (js ''src/index.'')))
   \<and> path_basename (js ''src/index.'') \<noteq> [dot, dot]"
  using hasExtension_iff [of "js ''src/index.''"] by (simp add: path_eval)

lemma compile_patterns_Some:
  "list_all (\<lambda>p. new_RegExp p \<noteq> None) ps
   \<Longrightarrow> compile_patterns new_RegExp ps = Some (map (\<lambda>p. the (new_RegExp p)) ps)"
  by (induction ps) auto

lemma compile_patterns_None:
  "\<not> list_all (\<lambda>p. new_RegExp p \<noteq> None) ps \<Longrightarrow> compile_patterns new_RegExp ps = None"
  by (induction ps) (auto split: option.splits)

lemma shouldIgnore_iff:
  assumes "list_all (\<lambda>p. RegExp host p \<noteq> None) (ignorePatterns cfg)"
  shows "shouldIgnore host cfg filePath =
           Inr (prefix [dot] (path_relative (cwd host) (directory cfg) filePath)
                \<or> list_ex (\<lambda>p. matches host p (path_relative (cwd host) (directory cfg) filePath)
                               \<or> matches host p (path_basename filePath))
                     (ignorePatterns cfg))"
proof -
  have "list_all (\<lambda>p. RegExp host p \<noteq> None) ps \<Longrightarrow>
        list_ex (\<lambda>r. r x \<or> r y) (map (\<lambda>p. the (RegExp host p)) ps)
        = list_ex (\<lambda>p. matches host p x \<or> matches host p y) ps" for x y ps
    by (induction ps) (auto simp: matches_def)
  from this [OF assms] show ?thesis
    using compile_patterns_Some [OF assms] by (simp add: shouldIgnore_def Let_def)
qed



text \<open>
  Claim C5, as stated, fails in two ways. First, a path whose root-relative form is neither
  hidden nor matched is still ignored when a pattern matches its base name alone: with the
  pattern \<open>^dist\<close> and the root \<open>/repo\<close>, the path \<open>/repo/src/dist\<close> has the
  root-relative form \<open>src/dist\<close>, which the pattern does not match, and \<open>shouldIgnore\<close>
  is true. Second, the patterns are compiled before the path is looked at, so with the
  pattern \<open>(\<close> the hidden path \<open>/repo/.git\<close> does not give true: \<open>shouldIgnore\<close> fails
  with the SyntaxError of the pattern.
\<close>

theorem shouldIgnore_counterexample:
  "\<not> prefix [dot] (path_relative (cwd (sampleHost (\<lambda>p. None) (\<lambda>k. 0) (\<lambda>k. 0)))
        (directory (exampleConfig\<lparr>ignorePatterns := [js ''^dist'']\<rparr>)) (js ''/repo/src/dist''))
   \<and> \<not> matches (sampleHost (\<lambda>p. None) (\<lambda>k. 0) (\<lambda>k. 0)) (js ''^dist'')
        (path_relative (cwd (sampleHost (\<lambda>p. None) (\<lambda>k. 0) (\<lambda>k. 0)))
           (directory (exampleConfig\<lparr>ignorePatterns := [js ''^dist'']\<rparr>)) (js ''/repo/src/dist''))
   \<and> shouldIgnore (sampleHost (\<lambda>p. None) (\<lambda>k. 0) (\<lambda>k. 0))
        (exampleConfig\<lparr>ignorePatterns := [js ''^dist'']\<rparr>) (js ''/repo/src/dist'') = Inr True
   \<and> prefix [dot] (path_relative (cwd (sampleHost (\<lambda>p. None) (\<lambda>k. 0) (\<lambda>k. 0)))
        (directory (exampleConfig\<lparr>ignorePatterns := [js ''('']\<rparr>)) (js ''/repo/.git''))
   \<and> shouldIgnore (sampleHost (\<lambda>p. None) (\<lambda>k. 0) (\<lambda>k. 0))
        (exampleConfig\<lparr>ignorePatterns := [js ''('']\<rparr>) (js ''/repo/.git'') = Inl SyntaxError"
  by (simp add: path_eval host_eval matches_def)


text \<open>
  Claim C5, amended. When every configured pattern compiles, \<open>shouldIgnore\<close> returns true
  exactly when the root-relative form of the path starts with a dot or some pattern matches
  the root-relative form or the base name; so it returns false for a path that is not
  hidden and whose root-relative form and base name both match no pattern. When some
  pattern does not compile, \<open>shouldIgnore\<close> fails for every path.
\<close>

theorem shouldIgnore_compiled:
  "(list_all (\<lambda>p. RegExp host p \<noteq> None) (ignorePatterns cfg) \<longrightarrow>
      shouldIgnore host cfg filePath =
        Inr (prefix [dot] (path_relative (cwd host) (directory cfg) filePath)
             \<or> list_ex (\<lambda>p. matches host p (path_relative (cwd host) (directory cfg) filePath)
                            \<or> matches host p (path_basename filePath))
                  (ignorePatterns cfg)))
   \<and> (\<not> list_all (\<lambda>p. RegExp host p \<noteq> None) (ignorePatterns cfg) \<longrightarrow>
      shouldIgnore host cfg filePath = Inl SyntaxError)"
  using shouldIgnore_iff [of host cfg filePath]
    compile_patterns_None [of "RegExp host" "ignorePatterns cfg"]
  by (simp add: shouldIgnore_def Let_def)

theorem shouldIgnore_compiled_witness:
  "list_all (\<lambda>p. RegExp (sampleHost (\<lambda>p. None) (\<lambda>k. 0) (\<lambda>k. 0)) p \<noteq> None) (ignorePatterns exampleConfig)
   \<and> shouldIgnore (sampleHost (\<lambda>p. None) (\<lambda>k. 0) (\<lambda>k. 0)) exampleConfig (js ''/repo/src/index.ts'')
       = Inr False
   \<and> shouldIgnore (sampleHost (\<lambda>p. None) (\<lambda>k. 0) (\<lambda>k. 0)) exampleConfig
         (js ''/repo/node_modules/package/index.js'') = Inr True
   \<and> \<not> list_all (\<lambda>p. RegExp (sampleHost (\<lambda>p. None) (\<lambda>k. 0) (\<lambda>k. 0)) p \<noteq> None)
         (ignorePatterns (exampleConfig\<lparr>ignorePatterns := [js ''('']\<rparr>))
   \<and> shouldIgnore (sampleHost (\<lambda>p. None) (\<lambda>k. 0) (\<lambda>k. 0))
         (exampleConfig\<lparr>ignorePatterns := [js ''('']\<rparr>) (js ''/repo/src/index.ts'')
       = Inl SyntaxError"
  using shouldIgnore_compiled [of "sampleHost (\<lambda>p. None) (\<lambda>k. 0) (\<lambda>k. 0)" exampleConfig
          "js ''/repo/src/index.ts''"]
    shouldIgnore_compiled [of "sampleHost (\<lambda>p. None) (\<lambda>k. 0) (\<lambda>k. 0)" exampleConfig
          "js ''/repo/node_modules/package/index.js''"]
    shouldIgnore_compiled [of "sampleHost (\<lambda>p. None) (\<lambda>k. 0) (\<lambda>k. 0)"
          "exampleConfig\<lparr>ignorePatterns := [js ''('']\<rparr>" "js ''/repo/src/index.ts''"]
  by (simp add: path_eval host_eval matches_def)


section \<open>formatSize: the claims\<close>

declare expUp.simps [simp del] expDown.simps [simp del] show_nat.simps [simp del]
  exactFloorLog.simps [simp del]

lemma formatSize_unfold:
  "formatSize host bytes =
     (if bytes = 0 then js ''0 bytes''
      else (if 102 < floorLog host (nat \<bar>bytes\<bar>) then js ''0''
            else (if bytes < 0 then js ''-'' else [])
                 @ numberText
                     (fst (toPrecision3 (nat \<bar>bytes\<bar>) (1024 ^ floorLog host (nat \<bar>bytes\<bar>))))
                     (snd (toPrecision3 (nat \<bar>bytes\<bar>) (1024 ^ floorLog host (nat \<bar>bytes\<bar>)))))
           @ js '' '' @ unitText (floorLog host (nat \<bar>bytes\<bar>)))"
  by (simp add: formatSize_def Let_def)

lemma toPrecision3_unfold:
  "toPrecision3 num den =
     (if roundedSignificand num den (decimalExponent num den) = 1000
      then (100, decimalExponent num den + 1)
      else (roundedSignificand num den (decimalExponent num den), decimalExponent num den))"
  by (simp add: toPrecision3_def Let_def)

lemma numberText_unfold:
  "numberText n e =
     (if int (length (show_nat (significantDigits n))) \<le> e + 1 \<and> e + 1 \<le> 21
      then show_nat (significantDigits n)
           @ replicate (nat (e + 1 - int (length (show_nat (significantDigits n))))) (digit 0)
      else if 0 < e + 1 \<and> e + 1 \<le> 21
      then take (nat (e + 1)) (show_nat (significantDigits n)) @ js ''.''
           @ drop (nat (e + 1)) (show_nat (significantDigits n))
      else if - 6 < e + 1 \<and> e + 1 \<le> 0
      then js ''0.'' @ replicate (nat (- (e + 1))) (digit 0) @ show_nat (significantDigits n)
      else (if int (length (show_nat (significantDigits n))) = 1
            then show_nat (significantDigits n)
            else take 1 (show_nat (significantDigits n)) @ js ''.''
                 @ drop 1 (show_nat (significantDigits n)))
           @ exponentText (e + 1 - 1))"
  by (simp add: numberText_def Let_def)

lemma floorLog_sampleHost: "floorLog (sampleHost rd heap late) = doubleFloorLog"
  by (simp add: sampleHost_def)

lemmas size_eval =
  formatSize_unfold toPrecision3_unfold numberText_unfold decimalExponent_def
  roundedSignificand_def significantDigits_def exponentText_def expUp.simps expDown.simps
  show_nat.simps digit_def units_def unitText_def js_def floorLog_sampleHost
  doubleFloorLog_def exactFloorLog.simps

lemma formatSize_sample_values:
  "formatSize (sampleHost rd heap late) 0 = js ''0 bytes''"
  "formatSize (sampleHost rd heap late) 10 = js ''10 bytes''"
  "formatSize (sampleHost rd heap late) 1024 = js ''1 KB''"
  "formatSize (sampleHost rd heap late) (- 2048) = js ''-2 KB''"
  "formatSize (sampleHost rd heap late) 1234567 = js ''1.18 MB''"
  "formatSize (sampleHost rd heap late) 1536 = js ''1.5 KB''"
  by (simp_all add: size_eval)


subsection \<open>The decimal exponent and the rounding\<close>







subsection \<open>The index\<close>



subsection \<open>Digits and what they stand for\<close>

lemma digit_in_digits: "d < 10 \<Longrightarrow> digit d \<in> set (js ''0123456789'')"
proof -
  assume "d < 10"
  then have "d = 0 \<or> d = 1 \<or> d = 2 \<or> d = 3 \<or> d = 4 \<or> d = 5 \<or> d = 6 \<or> d = 7 \<or> d = 8 \<or> d = 9"
    by arith
  then show ?thesis by (auto simp: digit_def js_def)
qed

lemma show_nat_digits: "set (show_nat m) \<subseteq> set (js ''0123456789'')"
proof (induction m rule: show_nat.induct)
  case (1 n)
  show ?case
  proof (cases "n < 10")
    case True
    then show ?thesis using digit_in_digits [of n] by (simp add: show_nat.simps [of n])
  next
    case False
    have "digit (n mod 10) \<in> set (js ''0123456789'')" by (rule digit_in_digits) simp
    with 1 False show ?thesis by (simp add: show_nat.simps [of n])
  qed
qed














subsection \<open>No line feed in a size\<close>

lemma LF_notin_show_nat: "LF \<notin> set (show_nat m)"
proof -
  have "LF \<notin> set (js ''0123456789'')" by (simp add: js_def LF_def)
  with show_nat_digits [of m] show ?thesis by blast
qed

lemma LF_notin_numberText: "LF \<notin> set (numberText n e)"
proof -
  let ?ds = "show_nat (significantDigits n)"
  have a: "LF \<notin> set ?ds" by (rule LF_notin_show_nat)
  then have b: "LF \<notin> set (take j ?ds)" "LF \<notin> set (drop j ?ds)" for j
    by (auto dest: in_set_takeD in_set_dropD)
  have c: "LF \<noteq> digit 0" by (simp add: digit_def LF_def)
  have d: "LF \<notin> set (exponentText x)" for x
    using LF_notin_show_nat [of "nat \<bar>x\<bar>"] by (simp add: exponentText_def js_def LF_def)
  have f: "LF \<notin> set (js ''.'')" "LF \<notin> set (js ''0.'')" by (simp_all add: js_def LF_def)
  show ?thesis using a b c d f by (simp add: numberText_unfold)
qed

lemma LF_notin_formatSize: "LF \<notin> set (formatSize host b)"
proof -
  have "LF \<notin> set (unitText i)" for i
  proof (cases "i < length units")
    case True
    then have "i < 5" by (simp add: units_def)
    then have "i = 0 \<or> i = 1 \<or> i = 2 \<or> i = 3 \<or> i = 4" by arith
    then show ?thesis by (auto simp: unitText_def units_def js_def LF_def)
  next
    case False
    then show ?thesis by (simp add: unitText_def js_def LF_def)
  qed
  moreover have "LF \<notin> set (js ''0 bytes'')" "LF \<notin> set (js ''0'')" "LF \<notin> set (js ''-'')"
    "LF \<notin> set (js '' '')" by (simp_all add: js_def LF_def)
  ultimately show ?thesis using LF_notin_numberText by (simp add: formatSize_unfold)
qed


subsection \<open>The claim\<close>





section \<open>TreeRenderer: the claims\<close>

lemma count_list_append: "count_list (xs @ ys) a = count_list xs a + count_list ys a"
  by (induction xs) auto

lemma count_list_0: "a \<notin> set xs \<Longrightarrow> count_list xs a = 0"
  by (induction xs) auto

lemma lineCount_append [simp]: "lineCount (xs @ ys) = lineCount xs + lineCount ys"
  by (simp add: lineCount_def count_list_append)

lemma lineCount_0: "LF \<notin> set xs \<Longrightarrow> lineCount xs = 0"
  by (simp add: lineCount_def count_list_0)

lemma lineCount_treeLine:
  assumes "LF \<notin> set indent" and "LF \<notin> set (name node)"
  shows "lineCount (treeLine host indent isLastItem node) = 1"
proof -
  have "LF \<notin> set (connector isLastItem)" "LF \<notin> set (marker (isDirectory node))"
    "LF \<notin> set (js '' '')"
    by (simp_all add: connector_def marker_def js_def LF_def)
  then show ?thesis
    using assms LF_notin_formatSize [of host "nodeSize node"]
    by (simp add: treeLine_def Let_def lineCount_0) (simp add: lineCount_def LF_def)
qed

lemma childIndent_no_LF: "LF \<notin> set indent \<Longrightarrow> LF \<notin> set (childIndent indent isLastItem)"
  by (simp add: childIndent_def js_def LF_def)

lemma buildTreeView_from_Cons:
  "buildTreeView_from host len index (node # rest) indent =
     entryView host indent (int index = int len - 1) node
     @ buildTreeView_from host len (Suc index) rest indent"
  by (cases node) (simp add: entryView_def Let_def)

lemma treeNodes_Cons:
  "treeNodes (node # rest) =
     node # (if isDirectory node then treeNodes (children node) else []) @ treeNodes rest"
  by (cases node) simp

lemma lineCount_buildTreeView:
  "LF \<notin> set indent \<Longrightarrow> list_all (\<lambda>n. LF \<notin> set (name n)) (treeNodes nodes)
     \<Longrightarrow> lineCount (buildTreeView host nodes indent) = length (treeNodes nodes)"
  "LF \<notin> set indent \<Longrightarrow> list_all (\<lambda>n. LF \<notin> set (name n)) (treeNodes rest)
     \<Longrightarrow> lineCount (buildTreeView_from host len index rest indent) = length (treeNodes rest)"
proof (induction host nodes indent and host len index rest indent
       rule: buildTreeView_buildTreeView_from.induct)
  case (1 host nodes indent)
  then show ?case by simp
next
  case (2 host len index indent)
  show ?case by (simp add: lineCount_def)
next
  case (3 host len index nm pth sz isDir kids rest indent)
  let ?last = "int index = int len - 1"
  have line: "lineCount (treeLine host indent ?last (FileNode nm pth sz isDir kids)) = 1"
    using 3(3,4) by (intro lineCount_treeLine) simp_all
  have rest: "lineCount (buildTreeView_from host len (Suc index) rest indent) = length (treeNodes rest)"
    using 3(2) [OF refl] 3(3,4) by simp
  show ?case
  proof (cases isDir)
    case True
    have "lineCount (buildTreeView host kids (childIndent indent ?last)) = length (treeNodes kids)"
      using 3(1) [OF refl True] 3(3,4) True by (simp add: childIndent_no_LF)
    with line rest True show ?thesis by (simp add: Let_def)
  next
    case False
    with line rest show ?thesis by (simp add: Let_def lineCount_def)
  qed
qed

lemma buildTreeView_from_siblings:
  "buildTreeView_from host len index rest indent =
     concat (map (\<lambda>j. entryView host indent (int (index + j) = int len - 1) (rest ! j))
                 [0..<length rest])"
proof (induction rest arbitrary: index)
  case Nil
  show ?case by simp
next
  case (Cons node rest)
  have "map (\<lambda>j. entryView host indent (int (index + j) = int len - 1) ((node # rest) ! j))
            [0..<length (node # rest)]
        = entryView host indent (int index = int len - 1) node
          # map (\<lambda>j. entryView host indent (int (Suc index + j) = int len - 1) (rest ! j))
                [0..<length rest]"
    by (simp add: upt_conv_Cons map_Suc_upt [symmetric] del: upt_Suc)
  then show ?case
    by (simp add: buildTreeView_from_Cons Cons.IH del: upt_Suc)
qed

lemma buildTreeView_siblings:
  "buildTreeView host nodes indent =
     concat (map (\<lambda>i. entryView host indent (i = length nodes - 1) (nodes ! i)) [0..<length nodes])"
proof -
  have eq: "map (\<lambda>j. entryView host indent (int j = int (length nodes) - 1) (nodes ! j))
                [0..<length nodes]
            = map (\<lambda>i. entryView host indent (i = length nodes - 1) (nodes ! i)) [0..<length nodes]"
  proof (rule map_cong [OF refl])
    fix i assume "i \<in> set [0..<length nodes]"
    then have "i < length nodes" by simp
    then have "(int i = int (length nodes) - 1) = (i = length nodes - 1)" by auto
    then show "entryView host indent (int i = int (length nodes) - 1) (nodes ! i)
               = entryView host indent (i = length nodes - 1) (nodes ! i)" by simp
  qed
  have "buildTreeView host nodes indent =
          concat (map (\<lambda>j. entryView host indent (int j = int (length nodes) - 1) (nodes ! j))
                      [0..<length nodes])"
    using buildTreeView_from_siblings [of host "length nodes" 0 nodes indent] by simp
  then show ?thesis by (simp only: eq)
qed

lemmas view_eval =
  treeLine_def connector_def marker_def childIndent_def lineCount_def LF_def Let_def


text \<open>
  Claim C7, as stated, fails for a node whose name contains a line feed, which a file name
  may: the view of the single file \<open>a\<close>, line feed, \<open>b\<close> has two lines for one node.
\<close>

theorem buildTreeView_line_per_node_counterexample:
  "lineCount (buildTreeView calmHost [FileNode (js ''a'' @ [LF] @ js ''b'') (js ''/repo/x'') 0 False []] []) = 2
   \<and> length (treeNodes [FileNode (js ''a'' @ [LF] @ js ''b'') (js ''/repo/x'') 0 False []]) = 1"
  by (simp add: view_eval calmHost_def size_eval)


text \<open>
  Claim C7, amended. For every tree of nodes whose names contain no line feed (and an indent
  without one), the view has exactly one line per node, files and directories together.
  For every tree, the view is the concatenation, in order, of the views of the siblings,
  where the last sibling is rendered as last and every other one as not last, the same rule
  applying to the children of every directory; the line of a sibling starts with the indent
  followed by the connector, which is \<open>U+2514 U+2500 U+2500\<close> for the last sibling and
  \<open>U+251C U+2500 U+2500\<close> otherwise. The view is a function of the tree and the indent
  alone, on a given runtime (whose arithmetic \<open>formatSize\<close> uses).
\<close>

theorem buildTreeView_lines_and_connectors:
  "(LF \<notin> set indent \<and> list_all (\<lambda>n. LF \<notin> set (name n)) (treeNodes nodes)
      \<longrightarrow> lineCount (buildTreeView host nodes indent) = length (treeNodes nodes))
   \<and> buildTreeView host nodes indent =
       concat (map (\<lambda>i. entryView host indent (i = length nodes - 1) (nodes ! i)) [0..<length nodes])
   \<and> prefix (indent @ connector isLastItem) (treeLine host indent isLastItem node)
   \<and> connector True = [0x2514, 0x2500, 0x2500]
   \<and> connector False = [0x251C, 0x2500, 0x2500]"
proof -
  have "prefix (indent @ connector isLastItem) (treeLine host indent isLastItem node)"
    by (simp add: treeLine_def Let_def)
  then show ?thesis
    using lineCount_buildTreeView(1) [of indent nodes host] buildTreeView_siblings [of host nodes indent]
    by (simp add: connector_def del: buildTreeView.simps)
qed

theorem buildTreeView_lines_and_connectors_witness:
  "LF \<notin> set []
   \<and> list_all (\<lambda>n. LF \<notin> set (name n)) (treeNodes exampleNodes)
   \<and> lineCount (buildTreeView calmHost exampleNodes []) = 3
   \<and> length (treeNodes exampleNodes) = 3
   \<and> buildTreeView calmHost exampleNodes [] =
       [0x251C, 0x2500, 0x2500] @ js '' '' @ [0xD83D, 0xDCC1] @ js '' src'' @ [LF]
       @ [0x2502] @ js ''   '' @ [0x2514, 0x2500, 0x2500] @ js '' '' @ [0x2630]
         @ js '' index.ts 10 bytes'' @ [LF]
       @ [0x2514, 0x2500, 0x2500] @ js '' '' @ [0x2630] @ js '' a.ts 1 KB'' @ [LF]"
proof -
  have names: "list_all (\<lambda>n. LF \<notin> set (name n)) (treeNodes exampleNodes)"
    by (simp add: exampleNodes_def js_def LF_def)
  have len: "length (treeNodes exampleNodes) = 3"
    by (simp add: exampleNodes_def)
  have view: "buildTreeView calmHost exampleNodes [] =
       [0x251C, 0x2500, 0x2500] @ js '' '' @ [0xD83D, 0xDCC1] @ js '' src'' @ [LF]
       @ [0x2502] @ js ''   '' @ [0x2514, 0x2500, 0x2500] @ js '' '' @ [0x2630]
         @ js '' index.ts 10 bytes'' @ [LF]
       @ [0x2514, 0x2500, 0x2500] @ js '' '' @ [0x2630] @ js '' a.ts 1 KB'' @ [LF]"
    by (simp add: exampleNodes_def view_eval calmHost_def size_eval)
  have nil: "LF \<notin> set []" by simp
  have "lineCount (buildTreeView calmHost exampleNodes []) = length (treeNodes exampleNodes)"
    using buildTreeView_lines_and_connectors [of "[]" exampleNodes calmHost True "hd exampleNodes"]
      names nil by blast
  with names len view show ?thesis by (simp del: buildTreeView.simps)
qed


section \<open>TreeCrawler: the claims\<close>

lemma pruned_Cons: "pruned (node # rest) \<longleftrightarrow>
    (if isDirectory node then children node \<noteq> [] else True) \<and> pruned (children node) \<and> pruned rest"
  by (cases node) simp

lemma collect_pruned:
  "collect rs = Some nodes \<Longrightarrow> list_all settledPruned rs \<Longrightarrow> pruned nodes"
proof (induction rs arbitrary: nodes rule: collect.induct)
  case 1
  then show ?case by simp
next
  case (2 e rest)
  then show ?case by simp
next
  case (3 r rest)
  then show ?case
    by (cases r) (auto simp: pruned_Cons split: option.splits)
qed

lemma gather_pruned:
  "pruned (fst (gatherFiles host cfg dir entry st))"
  "list_all settledPruned (fst (gatherItems host cfg dir items st))"
  "settledPruned (fst (gatherItem host cfg dir item entry st))"
proof (induction host cfg dir entry st and host cfg dir items st and host cfg dir item entry st
       rule: gatherFiles_gatherItems_gatherItem.induct)
  case (1 host cfg dir sz items st)
  then show ?case
    by (auto simp: Let_def split: prod.splits option.splits dest: collect_pruned)
next
  case (7 host cfg dir item entry rest st)
  then show ?case
    by (auto simp: Let_def split: prod.splits)
next
  case (8 host cfg dir item entry st)
  show ?case
  proof (cases "shouldIgnore host cfg (path_join dir item)")
    case (Inl e)
    then show ?thesis by (simp add: Let_def)
  next
    case (Inr b)
    show ?thesis
    proof (cases b)
      case True
      with Inr show ?thesis by (simp add: Let_def)
    next
      case False
      with Inr have ign: "shouldIgnore host cfg (path_join dir item) = Inr False" by simp
      show ?thesis
      proof (cases entry)
        case (Dir sz items)
        with 8(1) [OF refl ign refl Dir] Inr False show ?thesis
          by (auto simp: Let_def split: prod.splits)
      next
        case (UnreadableDir sz)
        with Inr False show ?thesis by (simp add: Let_def)
      qed (use Inr False in \<open>simp_all add: Let_def\<close>)
    qed
  qed
qed simp_all

subsection \<open>Counters that a traversal leaves alone\<close>

lemma giveUp_simps [simp]:
  "probes (giveUp host st st') = probes st'"
  "processedFiles (giveUp host st st') = processedFiles st'"
  "totalFiles (giveUp host st st') = totalFiles st'"
  "eventualSize (giveUp host st st') = eventualSize st'"
  by (simp_all add: giveUp_def Let_def eventualSize_def)

lemma arrive_simps [simp]:
  "probes (arrive host st) = probes st"
  "processedFiles (arrive host st) = processedFiles st"
  "totalFiles (arrive host st) = totalFiles st"
  "eventualSize (arrive host st) = eventualSize st"
  by (simp_all add: arrive_def Let_def eventualSize_def)

lemma gather_counters:
  "probes (snd (gatherFiles host cfg dir entry st)) = probes st
   \<and> processedFiles (snd (gatherFiles host cfg dir entry st)) = processedFiles st
   \<and> totalFiles (snd (gatherFiles host cfg dir entry st)) = totalFiles st"
  "probes (snd (gatherItems host cfg dir items st)) = probes st
   \<and> processedFiles (snd (gatherItems host cfg dir items st)) = processedFiles st
   \<and> totalFiles (snd (gatherItems host cfg dir items st)) = totalFiles st"
  "probes (snd (gatherItem host cfg dir item entry st)) = probes st
   \<and> processedFiles (snd (gatherItem host cfg dir item entry st)) = processedFiles st
   \<and> totalFiles (snd (gatherItem host cfg dir item entry st)) = totalFiles st"
proof (induction host cfg dir entry st and host cfg dir items st and host cfg dir item entry st
       rule: gatherFiles_gatherItems_gatherItem.induct)
  case (1 host cfg dir sz items st)
  then show ?case
    by (auto simp: Let_def split: prod.splits option.splits)
next
  case (7 host cfg dir item entry rest st)
  then show ?case
    by (auto simp: Let_def split: prod.splits)
next
  case (8 host cfg dir item entry st)
  show ?case
  proof (cases "shouldIgnore host cfg (path_join dir item)")
    case (Inl e)
    then show ?thesis by (simp add: Let_def)
  next
    case (Inr b)
    show ?thesis
    proof (cases b)
      case True
      with Inr show ?thesis by (simp add: Let_def)
    next
      case False
      with Inr have ign: "shouldIgnore host cfg (path_join dir item) = Inr False" by simp
      show ?thesis
      proof (cases entry)
        case (Dir sz items)
        with 8(1) [OF refl ign refl Dir] Inr False show ?thesis
          by (auto simp: Let_def split: prod.splits)
      next
        case (UnreadableDir sz)
        with Inr False show ?thesis by (simp add: Let_def)
      qed (use Inr False in \<open>simp_all add: Let_def\<close>)
    qed
  qed
qed simp_all


subsection \<open>What a traversal adds\<close>

lemma addTotal_simps [simp]:
  "addTotal 0 st = st"
  "addTotal a (addTotal b st) = addTotal (b + a) st"
  "totalSize (addTotal n st) = totalSize st + n"
  "inFlight (addTotal n st) = inFlight st"
  "probes (addTotal n st) = probes st"
  "processedFiles (addTotal n st) = processedFiles st"
  by (simp_all add: addTotal_def)






text \<open>
  Whatever is rejected, the nodes that a traversal returns do not depend on the counters,
  and neither does the number of bytes that it adds in the end, the additions still
  outstanding included.
\<close>

lemma eventualSize_add [simp]:
  "eventualSize (st\<lparr>totalSize := totalSize st + n\<rparr>) = eventualSize st + n"
  by (simp add: eventualSize_def)





subsection \<open>Two sample runs\<close>

lemma gatherFiles_exampleTree:
  "gatherFiles (sampleHost rd heap late) exampleConfig (js ''/repo'') exampleTree st =
     ([FileNode (js ''src'') (js ''/repo/src'') 4096 True
         [FileNode (js ''index.ts'') (js ''/repo/src/index.ts'') 10 False []]],
      st\<lparr>totalSize := totalSize st + 10\<rparr>)"
  by (simp add: exampleTree_def Let_def path_eval host_eval isRelevantFile_def hasExtension_def suffix_to_prefix)


lemma gatherFiles_quiet:
  "gatherFiles quietHost exampleConfig (directory exampleConfig) exampleTree initial
     = (exampleGathered, initial\<lparr>totalSize := 10\<rparr>)"
proof -
  have "directory exampleConfig = js ''/repo''" by (simp add: exampleConfig_def)
  then show ?thesis
    by (simp add: quietHost_def gatherFiles_exampleTree exampleGathered_def initial_def)
qed




subsection \<open>The claims\<close>

text \<open>
  Claim C2. Whatever the directory tree, the configuration and the host are, no directory
  node of the sequence that \<open>gatherFiles\<close> returns has an empty sequence of children, at
  any depth.
\<close>

theorem gatherFiles_never_empty_directory:
  "pruned (fst (gatherFiles host cfg dir entry st))"
  by (rule gather_pruned(1))

theorem gatherFiles_never_empty_directory_witness:
  "fst (gatherFiles quietHost exampleConfig (directory exampleConfig) exampleTree initial)
     = exampleGathered
   \<and> pruned exampleGathered"
  using gatherFiles_never_empty_directory
          [of quietHost exampleConfig "directory exampleConfig" exampleTree initial]
  by (simp add: gatherFiles_quiet)





section \<open>ContextAssembler, memory guard and Analyzer: the claims\<close>

lemma checkMemoryUsage_overLimit:
  "checkMemoryUsage host cfg st =
     (if overLimit cfg (heapUsed host (probes st)) then Inl MemoryLimitExceeded
      else Inr (st\<lparr>probes := Suc (probes st)\<rparr>))"
  by (simp add: checkMemoryUsage_def overLimit_def Let_def)

lemma processFileTree_Cons:
  "processFileTree host cfg (node # rest) acc =
     (case visitNode host cfg node acc of
        Inl e \<Rightarrow> Inl e
      | Inr acc' \<Rightarrow>
          if overLimit cfg (heapUsed host (probes (snd acc'))) then Inl MemoryLimitExceeded
          else processFileTree host cfg rest
                 (fst acc', (snd acc')\<lparr>probes := Suc (probes (snd acc'))\<rparr>))"
proof (cases node)
  case (FileNode nm pth sz isDir kids)
  obtain ctx st where acc: "acc = (ctx, st)" by (cases acc)
  show ?thesis
  proof (cases isDir)
    case True
    then show ?thesis
      by (cases "processFileTree host cfg kids (ctx, st)")
         (auto simp: FileNode acc visitNode_def checkMemoryUsage_overLimit)
  next
    case False
    then show ?thesis
      by (cases "readFile host pth")
         (auto simp: FileNode acc visitNode_def checkMemoryUsage_overLimit)
  qed
qed

lemma processFileTree_Nil: "processFileTree host cfg [] acc = Inr acc"
  by (cases acc) simp

text \<open>A successful walk takes one reading of the heap for every node.\<close>

lemma processFileTree_probes:
  "processFileTree host cfg nodes acc = Inr acc'
   \<Longrightarrow> probes (snd acc') = probes (snd acc) + length (treeNodes nodes)"
proof (induction nodes arbitrary: acc acc' rule: treeNodes.induct)
  case 1
  then show ?case by (simp add: processFileTree_Nil)
next
  case (2 nm pth sz isDir kids rest)
  let ?node = "FileNode nm pth sz isDir kids"
  from 2(3) obtain acc1 where
    v: "visitNode host cfg ?node acc = Inr acc1" and
    ok: "\<not> overLimit cfg (heapUsed host (probes (snd acc1)))" and
    r: "processFileTree host cfg rest (fst acc1, (snd acc1)\<lparr>probes := Suc (probes (snd acc1))\<rparr>)
          = Inr acc'"
    by (auto simp: processFileTree_Cons split: sum.splits if_splits)
  have p1: "probes (snd acc1) = probes (snd acc) + (if isDir then length (treeNodes kids) else 0)"
  proof (cases isDir)
    case True
    with v 2(1) [of acc acc1] show ?thesis by (simp add: visitNode_def)
  next
    case False
    with v show ?thesis by (auto simp: visitNode_def split: option.splits)
  qed
  have "probes (snd acc') = Suc (probes (snd acc1)) + length (treeNodes rest)"
    using 2(2) [OF r] by simp
  with p1 show ?case by simp
qed

text \<open>The only error of the walk is the one of the memory guard.\<close>

lemma processFileTree_error:
  "processFileTree host cfg nodes acc = Inl e \<Longrightarrow> e = MemoryLimitExceeded"
proof (induction nodes arbitrary: acc e rule: treeNodes.induct)
  case 1
  then show ?case by (simp add: processFileTree_Nil)
next
  case (2 nm pth sz isDir kids rest)
  let ?node = "FileNode nm pth sz isDir kids"
  show ?case
  proof (cases "visitNode host cfg ?node acc")
    case (Inl e')
    then have "isDir" and "processFileTree host cfg kids acc = Inl e'"
      by (auto simp: visitNode_def split: if_splits option.splits)
    then have "e' = MemoryLimitExceeded" using 2(1) by blast
    with Inl 2(3) show ?thesis by (simp add: processFileTree_Cons)
  next
    case (Inr acc1)
    with 2(3) 2(2) show ?thesis
      by (auto simp: processFileTree_Cons split: if_splits)
  qed
qed

text \<open>When no file of the tree can be read, the walk adds no block.\<close>

lemma processFileTree_nothing_read:
  "list_all (\<lambda>n. isDirectory n \<or> readFile host (path n) = None) (treeNodes nodes)
   \<Longrightarrow> processFileTree host cfg nodes acc = Inr acc'
   \<Longrightarrow> fst acc' = fst acc"
proof (induction nodes arbitrary: acc acc' rule: treeNodes.induct)
  case 1
  then show ?case by (simp add: processFileTree_Nil)
next
  case (2 nm pth sz isDir kids rest)
  let ?node = "FileNode nm pth sz isDir kids"
  from 2(4) obtain acc1 where
    v: "visitNode host cfg ?node acc = Inr acc1" and
    r: "processFileTree host cfg rest (fst acc1, (snd acc1)\<lparr>probes := Suc (probes (snd acc1))\<rparr>)
          = Inr acc'"
    by (auto simp: processFileTree_Cons split: sum.splits if_splits)
  have "fst acc1 = fst acc"
  proof (cases isDir)
    case True
    with v 2(1) [of acc acc1] 2(3) show ?thesis by (simp add: visitNode_def)
  next
    case False
    with v 2(3) show ?thesis by (auto simp: visitNode_def split: option.splits)
  qed
  moreover have "fst acc' = fst acc1"
    using 2(2) [OF _ r] 2(3) by simp
  ultimately show ?case by simp
qed

text \<open>A reading over the limit at any of the nodes stops the walk with the guard's error.\<close>

lemma processFileTree_trips:
  "k < length (treeNodes nodes) \<Longrightarrow> overLimit cfg (heapUsed host (probes (snd acc) + k))
   \<Longrightarrow> processFileTree host cfg nodes acc = Inl MemoryLimitExceeded"
proof (induction nodes arbitrary: acc k rule: treeNodes.induct)
  case 1
  then show ?case by simp
next
  case (2 nm pth sz isDir kids rest)
  let ?node = "FileNode nm pth sz isDir kids"
  let ?K = "if isDir then length (treeNodes kids) else 0"
  show ?case
  proof (cases "visitNode host cfg ?node acc")
    case (Inl e)
    then have "isDir" and "processFileTree host cfg kids acc = Inl e"
      by (auto simp: visitNode_def split: if_splits option.splits)
    then have "e = MemoryLimitExceeded" using processFileTree_error by blast
    with Inl show ?thesis by (simp add: processFileTree_Cons)
  next
    case (Inr acc1)
    have p1: "probes (snd acc1) = probes (snd acc) + ?K"
    proof (cases isDir)
      case True
      with Inr processFileTree_probes [of host cfg kids acc acc1] show ?thesis
        by (simp add: visitNode_def)
    next
      case False
      with Inr show ?thesis by (auto simp: visitNode_def split: option.splits)
    qed
    have notless: "\<not> k < ?K"
    proof
      assume "k < ?K"
      then have "isDir" and "k < length (treeNodes kids)" by (auto split: if_splits)
      then have "processFileTree host cfg kids acc = Inl MemoryLimitExceeded"
        using 2(1) [of k acc] 2(4) by simp
      with \<open>isDir\<close> Inr show False by (simp add: visitNode_def)
    qed
    show ?thesis
    proof (cases "overLimit cfg (heapUsed host (probes (snd acc1)))")
      case True
      with Inr show ?thesis by (simp add: processFileTree_Cons)
    next
      case False
      have "k \<noteq> ?K"
      proof
        assume "k = ?K"
        then have "probes (snd acc) + k = probes (snd acc1)" using p1 by simp
        with 2(4) False show False by simp
      qed
      with notless have gt: "?K < k" by simp
      let ?acc2 = "(fst acc1, (snd acc1)\<lparr>probes := Suc (probes (snd acc1))\<rparr>)"
      have "k - ?K - 1 < length (treeNodes rest)"
        using 2(3) gt by (auto split: if_splits)
      moreover have "probes (snd ?acc2) + (k - ?K - 1) = probes (snd acc) + k"
        using p1 gt by simp
      ultimately have "processFileTree host cfg rest ?acc2 = Inl MemoryLimitExceeded"
        using 2(2) [of "k - ?K - 1" ?acc2] 2(4) by simp
      with Inr False show ?thesis by (simp add: processFileTree_Cons)
    qed
  qed
qed

text \<open>When no reading is over the limit, the walk succeeds.\<close>

lemma processFileTree_succeeds:
  "(\<And>k. k < length (treeNodes nodes) \<Longrightarrow> \<not> overLimit cfg (heapUsed host (probes (snd acc) + k)))
   \<Longrightarrow> \<exists>acc'. processFileTree host cfg nodes acc = Inr acc'"
proof (induction nodes arbitrary: acc rule: treeNodes.induct)
  case 1
  then show ?case by (simp add: processFileTree_Nil)
next
  case (2 nm pth sz isDir kids rest)
  let ?node = "FileNode nm pth sz isDir kids"
  let ?K = "if isDir then length (treeNodes kids) else 0"
  have "\<exists>acc1. visitNode host cfg ?node acc = Inr acc1"
  proof (cases isDir)
    case True
    have "\<exists>acc'. processFileTree host cfg kids acc = Inr acc'"
    proof (rule 2(1) [OF True])
      fix k assume "k < length (treeNodes kids)"
      then have "k < length (treeNodes (?node # rest))" using True by simp
      then show "\<not> overLimit cfg (heapUsed host (probes (snd acc) + k))" by (rule 2(3))
    qed
    with True show ?thesis by (simp add: visitNode_def)
  next
    case False
    then show ?thesis by (auto simp: visitNode_def split: option.splits)
  qed
  then obtain acc1 where v: "visitNode host cfg ?node acc = Inr acc1" by blast
  have p1: "probes (snd acc1) = probes (snd acc) + ?K"
  proof (cases isDir)
    case True
    with v processFileTree_probes [of host cfg kids acc acc1] show ?thesis
      by (simp add: visitNode_def)
  next
    case False
    with v show ?thesis by (auto simp: visitNode_def split: option.splits)
  qed
  have "?K < length (treeNodes (?node # rest))" by simp
  then have ok: "\<not> overLimit cfg (heapUsed host (probes (snd acc1)))"
    using 2(3) [of ?K] p1 by simp
  let ?acc2 = "(fst acc1, (snd acc1)\<lparr>probes := Suc (probes (snd acc1))\<rparr>)"
  have "\<exists>acc'. processFileTree host cfg rest ?acc2 = Inr acc'"
  proof (rule 2(2))
    fix k assume k: "k < length (treeNodes rest)"
    then have "Suc (?K + k) < length (treeNodes (?node # rest))" by simp
    then have "\<not> overLimit cfg (heapUsed host (probes (snd acc) + Suc (?K + k)))" by (rule 2(3))
    then show "\<not> overLimit cfg (heapUsed host (probes (snd ?acc2) + k))"
      using p1 by (simp add: add.assoc)
  qed
  with v ok show ?case by (simp add: processFileTree_Cons)
qed

lemma gatherFiles_probes:
  "probes (snd (gatherFiles host cfg dir entry st)) = probes st"
  by (simp add: gather_counters(1))

lemma analyze_unfold:
  "analyze host cfg rootEntry st =
     (case gatherContext host cfg (gathered host cfg rootEntry st)
             (snd (gatherFiles host cfg (directory cfg) rootEntry st)) of
        Inl e \<Rightarrow> Inl e
      | Inr r \<Rightarrow>
          (case encode host (truncateContext cfg (fst r)) of
             None \<Rightarrow> Inl TokenizerError
           | Some n \<Rightarrow>
               Inr (\<lparr>outContext = truncateContext cfg (fst r),
                     tokenCount = n,
                     treeView = buildTreeView host (gathered host cfg rootEntry st) [],
                     files = \<lparr>statTotalSize = totalSize (arrive host (snd r)),
                              statTotalCount = totalFiles (snd r),
                              statProcessedCount = processedFiles (snd r)\<rparr>\<rparr>,
                    arrive host (snd r))))"
  by (simp add: analyze_def gathered_def Let_def split: prod.splits sum.splits option.splits)

lemma gatherContext_unfold:
  "gatherContext host cfg fileTree st =
     (case processFileTree host cfg fileTree ([], st\<lparr>totalFiles := countTotalFiles fileTree\<rparr>) of
        Inl e \<Rightarrow> Inl e
      | Inr r \<Rightarrow> if fst r = [] then Inl NoRelevantFiles else Inr (join (fst r) [0x0A], snd r))"
  by (simp add: gatherContext_def split: sum.splits prod.splits)

lemma gatherContext_trips:
  assumes "k < length (treeNodes fileTree)" and "overLimit cfg (heapUsed host (probes st + k))"
  shows "gatherContext host cfg fileTree st = Inl MemoryLimitExceeded"
proof -
  have "processFileTree host cfg fileTree ([], st\<lparr>totalFiles := countTotalFiles fileTree\<rparr>)
        = Inl MemoryLimitExceeded"
    using assms by (intro processFileTree_trips [of k]) simp_all
  then show ?thesis by (simp add: gatherContext_unfold)
qed

lemma gatherContext_success:
  assumes "gatherContext host cfg fileTree st = Inr r"
  shows "probes (snd r) = probes st + length (treeNodes fileTree)"
    and "k < length (treeNodes fileTree) \<Longrightarrow> \<not> overLimit cfg (heapUsed host (probes st + k))"
proof -
  let ?acc = "([], st\<lparr>totalFiles := countTotalFiles fileTree\<rparr>)"
  obtain acc' where p: "processFileTree host cfg fileTree ?acc = Inr acc'" and "snd r = snd acc'"
    using assms by (auto simp: gatherContext_unfold split: sum.splits if_splits)
  then show "probes (snd r) = probes st + length (treeNodes fileTree)"
    using processFileTree_probes [OF p] by simp
  show "\<not> overLimit cfg (heapUsed host (probes st + k))" if "k < length (treeNodes fileTree)"
    using gatherContext_trips [OF that, of cfg host st] assms by auto
qed

lemma gatherContext_nothing_read:
  assumes "nothingRead host fileTree"
  shows "gatherContext host cfg fileTree st = Inl NoRelevantFiles
         \<or> gatherContext host cfg fileTree st = Inl MemoryLimitExceeded"
proof (cases "processFileTree host cfg fileTree ([], st\<lparr>totalFiles := countTotalFiles fileTree\<rparr>)")
  case (Inl e)
  then have "e = MemoryLimitExceeded" by (rule processFileTree_error)
  with Inl show ?thesis by (simp add: gatherContext_unfold)
next
  case (Inr acc')
  then have "fst acc' = []"
    using processFileTree_nothing_read [of host fileTree cfg _ acc'] assms
    by (simp add: nothingRead_def)
  with Inr show ?thesis by (simp add: gatherContext_unfold)
qed

lemma gatherContext_nothing_read_calm:
  assumes "nothingRead host fileTree"
    and "\<And>k. k < length (treeNodes fileTree) \<Longrightarrow> \<not> overLimit cfg (heapUsed host (probes st + k))"
  shows "gatherContext host cfg fileTree st = Inl NoRelevantFiles"
proof -
  let ?acc = "([], st\<lparr>totalFiles := countTotalFiles fileTree\<rparr>)"
  have "\<exists>acc'. processFileTree host cfg fileTree ?acc = Inr acc'"
    by (rule processFileTree_succeeds) (use assms(2) in simp)
  then obtain acc' where p: "processFileTree host cfg fileTree ?acc = Inr acc'" by blast
  then have "fst acc' = []"
    using processFileTree_nothing_read [of host fileTree cfg ?acc acc'] assms(1)
    by (simp add: nothingRead_def)
  with p show ?thesis by (simp add: gatherContext_unfold)
qed

lemma pruned_no_files_empty:
  "pruned nodes \<Longrightarrow> countTotalFiles nodes = 0 \<Longrightarrow> nodes = []"
proof (induction nodes rule: countTotalFiles.induct)
  case 1
  show ?case by simp
next
  case (2 nm pth sz isDir kids rest)
  show ?case
  proof (cases isDir)
    case True
    with 2 have "kids = []" by simp
    with 2(3) True show ?thesis by simp
  next
    case False
    with 2(4) show ?thesis by simp
  qed
qed


lemma gathered_exampleTree:
  "gathered (sampleHost rd heap late) exampleConfig exampleTree st =
     [FileNode (js ''src'') (js ''/repo/src'') 4096 True
         [FileNode (js ''index.ts'') (js ''/repo/src/index.ts'') 10 False []]]"
proof -
  have "directory exampleConfig = js ''/repo''" by (simp add: exampleConfig_def)
  then show ?thesis by (simp add: gathered_def gatherFiles_exampleTree)
qed


lemma block_quiet:
  "fileBlock quietHost (FileNode (js ''index.ts'') (js ''/repo/src/index.ts'') 10 False [])
     (js '' x  '')
     = exampleBlock"
proof -
  have "replicate 20 (0x3D :: cu) = js ''===================='' "
    by (simp add: js_def numeral_eq_Suc)
  then show ?thesis
    by (simp add: fileBlock_def trim_def isSpace_def quietHost_def formatSize_sample_values
          js_def LF_def exampleBlock_def)
qed

lemma processFileTree_quiet:
  "processFileTree quietHost exampleConfig exampleGathered ([], initial\<lparr>totalSize := 10, totalFiles := 1\<rparr>)
     = Inr ([exampleBlock], \<lparr>processedFiles = 1, totalFiles = 1, totalSize = 10, probes = 2,
                             inFlight = 0, occasions = 0\<rparr>)"
proof -
  have "readFile quietHost p = Some (js '' x  '')" for p
    by (simp add: quietHost_def sampleHost_def)
  moreover have "checkMemoryUsage quietHost exampleConfig st = Inr (st\<lparr>probes := Suc (probes st)\<rparr>)" for st
    by (simp add: quietHost_def sampleHost_def checkMemoryUsage_def exampleConfig_def)
  ultimately show ?thesis
    by (simp add: exampleGathered_def block_quiet initial_def)
qed

lemma gatherContext_quiet:
  "gatherContext quietHost exampleConfig exampleGathered (initial\<lparr>totalSize := 10\<rparr>)
     = Inr (exampleBlock, \<lparr>processedFiles = 1, totalFiles = 1, totalSize = 10, probes = 2,
                           inFlight = 0, occasions = 0\<rparr>)"
proof -
  have "countTotalFiles exampleGathered = 1" by (simp add: exampleGathered_def)
  then show ?thesis
    using processFileTree_quiet by (simp add: gatherContext_def)
qed

lemma truncate_quiet:
  "truncateContext exampleConfig exampleBlock = js ''File: /repo/src/index.ts''"
  by (simp add: truncateContext_def exampleConfig_def slice0_def split_eval LF_def exampleBlock_def)

lemma view_quiet: "buildTreeView quietHost exampleGathered [] = exampleView"
  by (simp add: exampleGathered_def exampleView_def view_eval quietHost_def
        formatSize_sample_values js_def)

lemma arrive_nothing:
  "inFlight st = 0 \<Longrightarrow> arrive host st = st\<lparr>occasions := Suc (occasions st)\<rparr>"
  by (simp add: arrive_def clampBytes_def Let_def)

lemma analyze_quiet:
  "analyze quietHost exampleConfig exampleTree initial =
     Inr (\<lparr>outContext = js ''File: /repo/src/index.ts'',
           tokenCount = 24,
           treeView = exampleView,
           files = \<lparr>statTotalSize = 10, statTotalCount = 1, statProcessedCount = 1\<rparr>\<rparr>,
          \<lparr>processedFiles = 1, totalFiles = 1, totalSize = 10, probes = 2,
           inFlight = 0, occasions = 1\<rparr>)"
proof -
  have e: "encode quietHost (js ''File: /repo/src/index.ts'') = Some 24"
    by (simp add: quietHost_def sampleHost_def js_def)
  show ?thesis
    by (simp add: analyze_def gatherFiles_quiet gatherContext_quiet truncate_quiet view_quiet e
          arrive_nothing Let_def del: buildTreeView.simps)
qed

lemma gathered_docsOnlyTree:
  "gathered hotHost exampleConfig docsOnlyTree initial = []"
  by (simp add: gathered_def docsOnlyTree_def hotHost_def Let_def path_eval host_eval
      isRelevantFile_def hasExtension_def suffix_to_prefix)

text \<open>
  Claim C3, as stated, fails when the memory guard trips on a tree of which no file can be
  read: the guard is called after the node, before the emptiness of the context is looked
  at, and \<open>analyze\<close> fails with the error of the guard, not with the one for no relevant
  files.
\<close>

theorem analyze_nothing_read_counterexample:
  "nothingRead hotHost (gathered hotHost exampleConfig exampleTree initial)
   \<and> analyze hotHost exampleConfig exampleTree initial = Inl MemoryLimitExceeded
   \<and> analyze hotHost exampleConfig exampleTree initial \<noteq> Inl NoRelevantFiles"
proof -
  have "0 < length (treeNodes (gathered hotHost exampleConfig exampleTree initial))"
    by (simp add: hotHost_def gathered_exampleTree)
  moreover have "overLimit exampleConfig (heapUsed hotHost (probes initial + 0))"
    by (simp add: hotHost_def overLimit_def sampleHost_def exampleConfig_def)
  ultimately have "analyze hotHost exampleConfig exampleTree initial = Inl MemoryLimitExceeded"
    using gatherContext_trips [of 0 "gathered hotHost exampleConfig exampleTree initial"
        exampleConfig hotHost] gatherFiles_probes
    by (simp add: analyze_unfold)
  moreover have "nothingRead hotHost (gathered hotHost exampleConfig exampleTree initial)"
  proof -
    have "readFile hotHost p = None" for p by (simp add: hotHost_def sampleHost_def)
    then show ?thesis by (simp add: nothingRead_def list_all_iff)
  qed
  ultimately show ?thesis by simp
qed

text \<open>
  Claim C3, amended. If no file of the gathered tree can be read, \<open>analyze\<close> returns no
  output record: it fails, with the error for no relevant files or, when the memory guard
  trips during the walk, with the error of the guard; it is the error for no relevant files
  whenever no heap reading of the walk is over the limit. When the gathered tree has no file
  at all (a directory with zero relevant files), \<open>analyze\<close> fails with the error for no
  relevant files, whatever the heap readings are.
\<close>

theorem analyze_nothing_read:
  "(nothingRead host (gathered host cfg rootEntry st)
    \<longrightarrow> analyze host cfg rootEntry st = Inl NoRelevantFiles
        \<or> analyze host cfg rootEntry st = Inl MemoryLimitExceeded)
   \<and> (nothingRead host (gathered host cfg rootEntry st)
      \<and> (\<forall>k < length (treeNodes (gathered host cfg rootEntry st)).
            \<not> overLimit cfg (heapUsed host (probes st + k)))
    \<longrightarrow> analyze host cfg rootEntry st = Inl NoRelevantFiles)
   \<and> (countTotalFiles (gathered host cfg rootEntry st) = 0
    \<longrightarrow> analyze host cfg rootEntry st = Inl NoRelevantFiles)"
proof -
  let ?tree = "gathered host cfg rootEntry st"
  let ?st1 = "snd (gatherFiles host cfg (directory cfg) rootEntry st)"
  have p: "probes ?st1 = probes st" by (rule gatherFiles_probes)
  have a: "analyze host cfg rootEntry st = Inl NoRelevantFiles
           \<or> analyze host cfg rootEntry st = Inl MemoryLimitExceeded"
    if "nothingRead host ?tree"
    using gatherContext_nothing_read [OF that, of cfg ?st1] by (auto simp: analyze_unfold)
  have b: "analyze host cfg rootEntry st = Inl NoRelevantFiles"
    if "nothingRead host ?tree"
      and "\<forall>k < length (treeNodes ?tree). \<not> overLimit cfg (heapUsed host (probes st + k))"
    using gatherContext_nothing_read_calm [of host ?tree cfg ?st1] that p
    by (simp add: analyze_unfold)
  have c: "analyze host cfg rootEntry st = Inl NoRelevantFiles"
    if "countTotalFiles ?tree = 0"
  proof -
    have "pruned ?tree" unfolding gathered_def by (rule gather_pruned(1))
    then have "?tree = []" using that by (rule pruned_no_files_empty)
    then show ?thesis by (simp add: analyze_unfold gatherContext_def)
  qed
  from a b c show ?thesis by blast
qed

theorem analyze_nothing_read_witness:
  "nothingRead calmHost (gathered calmHost exampleConfig exampleTree initial)
   \<and> \<not> overLimit exampleConfig (heapUsed calmHost (probes initial + 0))
   \<and> \<not> overLimit exampleConfig (heapUsed calmHost (probes initial + 1))
   \<and> length (treeNodes (gathered calmHost exampleConfig exampleTree initial)) = 2
   \<and> analyze calmHost exampleConfig exampleTree initial = Inl NoRelevantFiles
   \<and> countTotalFiles (gathered hotHost exampleConfig docsOnlyTree initial) = 0
   \<and> analyze hotHost exampleConfig docsOnlyTree initial = Inl NoRelevantFiles"
proof -
  have n: "nothingRead calmHost (gathered calmHost exampleConfig exampleTree initial)"
  proof -
    have "readFile calmHost p = None" for p by (simp add: calmHost_def sampleHost_def)
    then show ?thesis by (simp add: nothingRead_def list_all_iff)
  qed
  have o: "\<not> overLimit exampleConfig (heapUsed calmHost k)" for k
    by (simp add: calmHost_def sampleHost_def overLimit_def exampleConfig_def)
  have l: "length (treeNodes (gathered calmHost exampleConfig exampleTree initial)) = 2"
    by (simp add: calmHost_def gathered_exampleTree)
  have c: "countTotalFiles (gathered hotHost exampleConfig docsOnlyTree initial) = 0"
    by (simp add: gathered_docsOnlyTree)
  have "analyze calmHost exampleConfig exampleTree initial = Inl NoRelevantFiles"
    using analyze_nothing_read [of calmHost exampleConfig exampleTree initial] n o by blast
  moreover have "analyze hotHost exampleConfig docsOnlyTree initial = Inl NoRelevantFiles"
    using analyze_nothing_read [of hotHost exampleConfig docsOnlyTree initial] c by blast
  ultimately show ?thesis using n o l c by simp
qed

text \<open>
  Claim C4. The memory guard takes one reading of the heap after every node of the gathered
  tree: a run of \<open>analyze\<close> that returns an output record has taken exactly as many readings
  as the tree has nodes, and none of them was over the limit. Whenever one of these readings
  is over the limit, \<open>analyze\<close> fails with the error of the guard and returns no output
  record, partial or not.
\<close>

theorem analyze_memory_guard:
  "(k < length (treeNodes (gathered host cfg rootEntry st))
      \<and> overLimit cfg (heapUsed host (probes st + k))
    \<longrightarrow> analyze host cfg rootEntry st = Inl MemoryLimitExceeded)
   \<and> (analyze host cfg rootEntry st = Inr (result, st')
    \<longrightarrow> probes st' = probes st + length (treeNodes (gathered host cfg rootEntry st))
        \<and> (\<forall>j < length (treeNodes (gathered host cfg rootEntry st)).
              \<not> overLimit cfg (heapUsed host (probes st + j))))"
proof -
  let ?tree = "gathered host cfg rootEntry st"
  let ?st1 = "snd (gatherFiles host cfg (directory cfg) rootEntry st)"
  have p: "probes ?st1 = probes st" by (rule gatherFiles_probes)
  have a: "analyze host cfg rootEntry st = Inl MemoryLimitExceeded"
    if "k < length (treeNodes ?tree)" and "overLimit cfg (heapUsed host (probes st + k))"
    using gatherContext_trips [of k ?tree cfg host ?st1] that p
    by (simp add: analyze_unfold)
  have b: "probes st' = probes st + length (treeNodes ?tree)
           \<and> (\<forall>j < length (treeNodes ?tree). \<not> overLimit cfg (heapUsed host (probes st + j)))"
    if "analyze host cfg rootEntry st = Inr (result, st')"
  proof -
    from that obtain r
      where r: "gatherContext host cfg ?tree ?st1 = Inr r" and "st' = arrive host (snd r)"
      by (auto simp: analyze_unfold split: sum.splits option.splits)
    then show ?thesis
      using gatherContext_success [OF r] p by simp
  qed
  from a b show ?thesis by blast
qed


theorem analyze_memory_guard_witness:
  "1 < length (treeNodes (gathered readingHost exampleConfig exampleTree initial))
   \<and> overLimit exampleConfig (heapUsed readingHost (probes initial + 1))
   \<and> analyze readingHost exampleConfig exampleTree initial = Inl MemoryLimitExceeded
   \<and> analyze quietHost exampleConfig exampleTree initial =
       Inr (\<lparr>outContext = js ''File: /repo/src/index.ts'',
             tokenCount = 24,
             treeView = exampleView,
             files = \<lparr>statTotalSize = 10, statTotalCount = 1, statProcessedCount = 1\<rparr>\<rparr>,
            \<lparr>processedFiles = 1, totalFiles = 1, totalSize = 10, probes = 2,
             inFlight = 0, occasions = 1\<rparr>)
   \<and> probes \<lparr>processedFiles = 1, totalFiles = 1, totalSize = 10, probes = 2,
               inFlight = 0, occasions = 1\<rparr>
       = probes initial + length (treeNodes (gathered quietHost exampleConfig exampleTree initial))
   \<and> \<not> overLimit exampleConfig (heapUsed quietHost (probes initial + 0))
   \<and> \<not> overLimit exampleConfig (heapUsed quietHost (probes initial + 1))"
proof -
  have g: "1 < length (treeNodes (gathered readingHost exampleConfig exampleTree initial))"
    by (simp add: readingHost_def gathered_exampleTree)
  have o: "overLimit exampleConfig (heapUsed readingHost (probes initial + 1))"
    by (simp add: readingHost_def overLimit_def sampleHost_def exampleConfig_def initial_def)
  have t: "analyze readingHost exampleConfig exampleTree initial = Inl MemoryLimitExceeded"
    using analyze_memory_guard [of 1 readingHost exampleConfig exampleTree initial] g o
    by blast
  have l: "length (treeNodes (gathered quietHost exampleConfig exampleTree initial)) = 2"
    by (simp add: quietHost_def gathered_exampleTree)
  have q: "\<not> overLimit exampleConfig (heapUsed quietHost k)" for k
    by (simp add: quietHost_def sampleHost_def overLimit_def exampleConfig_def)
  show ?thesis
    using g o t l q analyze_quiet by (simp add: initial_def)
qed

end
